theory Spec2Isabelle
  imports Complex_Main "HOL-Library.Sublist" "HOL-Library.List_Lexorder"
begin

section \<open>Strings\<close>

text \<open>
  A JavaScript string is a sequence of UTF-16 code units; a code unit is modelled by its
  number. \<open>s.includes(p)\<close> is \<open>sublist p s\<close>, \<open>s.substring(0, i)\<close> is \<open>take i s\<close> and
  \<open>s.substring(i)\<close> is \<open>drop i s\<close> (for \<open>0 \<le> i\<close>). \<open>js\<close> writes an ASCII literal.
\<close>

type_synonym jsstring = "nat list"

definition js :: "string \<Rightarrow> jsstring" where
  "js s = map of_char s"

text \<open>
  \<open>String.prototype.toLowerCase\<close> is a builtin of the language (Unicode case mapping).
  Every function that calls it takes it as the parameter \<open>lc\<close>. On strings of ASCII code
  units it is \<open>asciiLower\<close>, which the concrete evaluations below use.
\<close>

definition asciiLower :: "jsstring \<Rightarrow> jsstring" where
  "asciiLower s = map (\<lambda>c. if 65 \<le> c \<and> c \<le> 90 then c + 32 else c) s"

text \<open>\<open>s.replace('.onion', '')\<close>: a string pattern replaces its first occurrence only.\<close>

definition dotOnion :: jsstring where
  "dotOnion = [46, 111, 110, 105, 111, 110]"

fun replaceOnion :: "jsstring \<Rightarrow> jsstring" where
  "replaceOnion [] = []"
| "replaceOnion (c # cs) =
     (if prefix dotOnion (c # cs) then drop (length dotOnion) (c # cs)
      else c # replaceOnion cs)"

section \<open>Domain similarity (utils/domainSimilarity)\<close>

subsection \<open>levenshteinDistance\<close>

text \<open>
  \<open>arr[j] = v\<close> on a JavaScript array: overwrite inside the array, extend it otherwise.
  (An index beyond the end would leave holes; the filler stands for them. The code only
  assigns inside a row or at its end.)
\<close>

definition js_assign :: "nat list \<Rightarrow> nat \<Rightarrow> nat \<Rightarrow> nat list" where
  "js_assign xs j v =
     (if j < length xs then xs[j := v] else xs @ replicate (j - length xs) 0 @ [v])"

definition set_cell :: "nat list list \<Rightarrow> nat \<Rightarrow> nat \<Rightarrow> nat \<Rightarrow> nat list list" where
  "set_cell m i j v = m[i := js_assign (m ! i) j v]"

text \<open>The body of the inner loop: the value stored in \<open>matrix[i][j]\<close>.\<close>

definition cell_value :: "'a list \<Rightarrow> 'a list \<Rightarrow> nat list list \<Rightarrow> nat \<Rightarrow> nat \<Rightarrow> nat" where
  "cell_value a b m i j =
     (if b ! (i - 1) = a ! (j - 1) then m ! (i - 1) ! (j - 1)
      else min (m ! (i - 1) ! (j - 1) + 1)
             (min (m ! i ! (j - 1) + 1) (m ! (i - 1) ! j + 1)))"

definition fill_row :: "'a list \<Rightarrow> 'a list \<Rightarrow> nat \<Rightarrow> nat list list \<Rightarrow> nat list list" where
  "fill_row a b i m =
     fold (\<lambda>j m. set_cell m i j (cell_value a b m i j)) [1..<Suc (length a)] m"

definition levenshteinDistance :: "'a list \<Rightarrow> 'a list \<Rightarrow> nat" where
  "levenshteinDistance a b =
     (let m0 = map (\<lambda>i. [i]) [0..<Suc (length b)];
          m1 = fold (\<lambda>j m. set_cell m 0 j j) [0..<Suc (length a)] m0;
          m2 = fold (fill_row a b) [1..<Suc (length b)] m1
      in m2 ! length b ! length a)"

text \<open>
  The recurrence the matrix tabulates, on the reversed prefixes: \<open>matrix[i][j]\<close> holds
  \<open>lev (rev (take i b)) (rev (take j a))\<close>.
\<close>

fun lev :: "'a list \<Rightarrow> 'a list \<Rightarrow> nat" where
  "lev [] ys = length ys"
| "lev xs [] = length xs"
| "lev (x # xs) (y # ys) =
     (if x = y then lev xs ys
      else min (lev xs ys + 1) (min (lev (x # xs) ys + 1) (lev xs (y # ys) + 1)))"

text \<open>Auxiliary names for the table the matrix ends up holding (used in the proofs only).\<close>

definition lev_cell :: "'a list \<Rightarrow> 'a list \<Rightarrow> nat \<Rightarrow> nat \<Rightarrow> nat" where
  "lev_cell a b i j = lev (rev (take i b)) (rev (take j a))"

definition lev_matrix :: "'a list \<Rightarrow> 'a list \<Rightarrow> nat \<Rightarrow> nat list list" where
  "lev_matrix a b k =
     map (\<lambda>i. map (lev_cell a b i) [0..<Suc (length a)]) [0..<Suc k]
       @ map (\<lambda>i. [i]) [Suc k..<Suc (length b)]"

subsection \<open>calculateSimilarity\<close>

text \<open>
  Numbers are exact rationals. \<open>(maxLength - distance) / maxLength\<close> is \<open>0 / 0 = NaN\<close>
  when both strings are empty: \<open>None\<close> stands for NaN.
\<close>

definition calculateSimilarity :: "jsstring \<Rightarrow> jsstring \<Rightarrow> rat option" where
  "calculateSimilarity domain1 domain2 =
     (let distance = levenshteinDistance domain1 domain2;
          maxLength = max (length domain1) (length domain2)
      in if maxLength = 0 then None
         else Some (((of_nat maxLength - of_nat distance) / of_nat maxLength) * 100))"

subsection \<open>HOMOGLYPHS and detectHomoglyph\<close>

text \<open>
  The table, keyed by the code unit of \<open>a e i o p c x y n m\<close>; each look-alike is a string
  of one code unit. A key without an entry reads \<open>undefined\<close> (\<open>None\<close>).
\<close>

definition HOMOGLYPHS :: "nat \<Rightarrow> jsstring list option" where
  "HOMOGLYPHS c =
     (if c = 97 then Some [[1072], [593], [945]]
      else if c = 101 then Some [[1077], [279], [275]]
      else if c = 105 then Some [[1110], [305], [108], [49]]
      else if c = 111 then Some [[1086], [48], [959]]
      else if c = 112 then Some [[1088], [961]]
      else if c = 99 then Some [[1089], [1010]]
      else if c = 120 then Some [[1093], [215]]
      else if c = 121 then Some [[1091], [1199]]
      else if c = 110 then Some [[1400], [1404]]
      else if c = 109 then Some [[1084], [7747]]
      else None)"

definition detectHomoglyph :: "(jsstring \<Rightarrow> jsstring) \<Rightarrow> jsstring \<Rightarrow> jsstring \<Rightarrow> bool" where
  "detectHomoglyph lc suspiciousDomain legitimateDomain =
     (let suspicious = replaceOnion (lc suspiciousDomain);
          legitimate = lc legitimateDomain
      in if suspicious = legitimate then False
         else list_ex (\<lambda>i.
                case HOMOGLYPHS (legitimate ! i) of
                  None \<Rightarrow> False
                | Some hs \<Rightarrow>
                    list_ex (\<lambda>homoglyph.
                      sublist (take i legitimate @ homoglyph @ drop (i + 1) legitimate)
                        suspicious) hs)
              [0..<length legitimate])"

subsection \<open>detectTyposquatting\<close>

datatype matchType =
  direct_match | character_omission | character_addition | character_swap
  | homoglyph | high_similarity

record typoResult =
  isTyposquatting :: bool
  typo_type :: "matchType option"
  typo_confidence :: rat

definition typoFound :: "matchType \<Rightarrow> rat \<Rightarrow> typoResult" where
  "typoFound t c = \<lparr>isTyposquatting = True, typo_type = Some t, typo_confidence = c\<rparr>"

definition typoNone :: typoResult where
  "typoNone = \<lparr>isTyposquatting = False, typo_type = None, typo_confidence = 0\<rparr>"

text \<open>
  Each \<open>for\<close> loop returns at the first index whose variant equals the candidate, so it
  is an existence test over the index range. The lengths are compared as integers:
  \<open>legitimate.length - 1\<close> is \<open>-1\<close> for the empty keyword (the swap loop then has no
  index to visit, as the empty range \<open>[0..<0 - 1]\<close> has none).
\<close>

definition omissionLoop :: "jsstring \<Rightarrow> jsstring \<Rightarrow> bool" where
  "omissionLoop suspicious legitimate =
     list_ex (\<lambda>i. suspicious = take i legitimate @ drop (i + 1) legitimate)
       [0..<length legitimate]"

definition additionLoop :: "jsstring \<Rightarrow> jsstring \<Rightarrow> bool" where
  "additionLoop suspicious legitimate =
     list_ex (\<lambda>i.
        list_ex (\<lambda>c. suspicious = take i legitimate @ [c] @ drop i legitimate) [97..<123])
       [0..<Suc (length legitimate)]"

definition swapLoop :: "jsstring \<Rightarrow> jsstring \<Rightarrow> bool" where
  "swapLoop suspicious legitimate =
     list_ex (\<lambda>i. suspicious =
          take i legitimate @ [legitimate ! (i + 1)] @ [legitimate ! i] @ drop (i + 2) legitimate)
       [0..<length legitimate - 1]"

definition detectTyposquatting :: "(jsstring \<Rightarrow> jsstring) \<Rightarrow> jsstring \<Rightarrow> jsstring \<Rightarrow> typoResult" where
  "detectTyposquatting lc suspiciousDomain legitimateDomain =
     (let suspicious = replaceOnion (lc suspiciousDomain);
          legitimate = lc legitimateDomain
      in if suspicious = legitimate then typoNone
         else if int (length suspicious) = int (length legitimate) - 1
                 \<and> omissionLoop suspicious legitimate
           then typoFound character_omission 95
         else if length suspicious = length legitimate + 1
                 \<and> additionLoop suspicious legitimate
           then typoFound character_addition 90
         else if length suspicious = length legitimate
                 \<and> swapLoop suspicious legitimate
           then typoFound character_swap 95
         else if detectHomoglyph lc suspicious legitimate
           then typoFound homoglyph 85
         else (case calculateSimilarity suspicious legitimate of
                 None \<Rightarrow> typoNone
               | Some similarity \<Rightarrow>
                   if similarity > 80 then typoFound high_similarity similarity
                   else typoNone))"

subsection \<open>checkBrandSimilarity\<close>

text \<open>The returned object; \<open>{ match: false }\<close> is \<open>None\<close>.\<close>

record brandMatch =
  keyword :: jsstring
  match_type :: "matchType option"
  confidence :: rat

text \<open>The body of the loop over the keywords, for one keyword.\<close>

definition checkKeyword :: "(jsstring \<Rightarrow> jsstring) \<Rightarrow> jsstring \<Rightarrow> jsstring \<Rightarrow> brandMatch option" where
  "checkKeyword lc domain kw =
     (let brand = lc kw
      in if sublist brand domain
         then Some \<lparr>keyword = kw, match_type = Some direct_match, confidence = 100\<rparr>
         else (let typoResult = detectTyposquatting lc domain brand
               in if isTyposquatting typoResult
                  then Some \<lparr>keyword = kw, match_type = typo_type typoResult,
                              confidence = typo_confidence typoResult\<rparr>
                  else None))"

fun keywordLoop :: "(jsstring \<Rightarrow> jsstring) \<Rightarrow> jsstring \<Rightarrow> jsstring list \<Rightarrow> brandMatch option" where
  "keywordLoop lc domain [] = None"
| "keywordLoop lc domain (kw # kws) =
     (case checkKeyword lc domain kw of
        Some m \<Rightarrow> Some m
      | None \<Rightarrow> keywordLoop lc domain kws)"

definition checkBrandSimilarity :: "(jsstring \<Rightarrow> jsstring) \<Rightarrow> jsstring \<Rightarrow> jsstring list \<Rightarrow> brandMatch option" where
  "checkBrandSimilarity lc onionDomain brandKeywords =
     keywordLoop lc (replaceOnion (lc onionDomain)) brandKeywords"

text \<open>The detector for one keyword: \<open>detect(D, K)\<close>.\<close>

definition detect :: "(jsstring \<Rightarrow> jsstring) \<Rightarrow> jsstring \<Rightarrow> jsstring \<Rightarrow> brandMatch option" where
  "detect lc D K = checkBrandSimilarity lc D [K]"

subsection \<open>The rules of the detector, as the specification words them\<close>

text \<open>
  Rules 2 to 6 of the detector, stated on a candidate \<open>c\<close> and a keyword \<open>k\<close> without
  reference to the loops: a position (and a letter) exists whose variant is the candidate.
\<close>

definition spec_omission :: "jsstring \<Rightarrow> jsstring \<Rightarrow> bool" where
  "spec_omission c k \<longleftrightarrow>
     int (length c) = int (length k) - 1 \<and> (\<exists>i<length k. c = take i k @ drop (Suc i) k)"

definition spec_addition :: "jsstring \<Rightarrow> jsstring \<Rightarrow> bool" where
  "spec_addition c k \<longleftrightarrow>
     length c = length k + 1
     \<and> (\<exists>i ch. i \<le> length k \<and> 97 \<le> ch \<and> ch \<le> 122 \<and> c = take i k @ ch # drop i k)"

definition spec_swap :: "jsstring \<Rightarrow> jsstring \<Rightarrow> bool" where
  "spec_swap c k \<longleftrightarrow>
     length c = length k
     \<and> (\<exists>i. Suc i < length k \<and> c = take i k @ k ! Suc i # k ! i # drop (i + 2) k)"

definition spec_homoglyph :: "jsstring \<Rightarrow> jsstring \<Rightarrow> bool" where
  "spec_homoglyph c k \<longleftrightarrow>
     (\<exists>i hs h. i < length k \<and> HOMOGLYPHS (k ! i) = Some hs \<and> h \<in> set hs
        \<and> sublist (take i k @ h @ drop (Suc i) k) c)"

definition spec_similarity :: "jsstring \<Rightarrow> jsstring \<Rightarrow> rat" where
  "spec_similarity c k =
     (of_nat (max (length c) (length k)) - of_nat (levenshteinDistance c k))
       / of_nat (max (length c) (length k)) * 100"

definition found :: "jsstring \<Rightarrow> matchType \<Rightarrow> rat \<Rightarrow> brandMatch option" where
  "found kw t c = Some \<lparr>keyword = kw, match_type = Some t, confidence = c\<rparr>"

section \<open>HTML similarity (utils/htmlSimilarity)\<close>

text \<open>
  The fingerprint that extractStructuralFeatures returns. The function reads the document
  through the cheerio parser and its selectors, which are outside the repository: the
  comparison takes it as the parameter \<open>extract\<close>.
\<close>

record inputField =
  input_type :: jsstring
  input_name :: jsstring
  input_id :: jsstring

record features =
  title :: jsstring
  formCount :: nat
  inputFields :: "inputField list"
  cssClasses :: "jsstring list"
  ids :: "jsstring list"
  links :: "jsstring list"
  images :: "jsstring list"

subsection \<open>jaccardSimilarity\<close>

definition jaccardSimilarity :: "'a list \<Rightarrow> 'a list \<Rightarrow> rat" where
  "jaccardSimilarity set1 set2 =
     (let s1 = set set1; s2 = set set2;
          intersection = {x \<in> s1. x \<in> s2};
          union = s1 \<union> s2
      in if card union = 0 then 0
         else of_nat (card intersection) / of_nat (card union))"

subsection \<open>compareInputFields\<close>

text \<open>
  \<open>filter(n => n)\<close> keeps the non-empty strings; \<open>sort()\<close> orders strings by code unit.
  The scores are exact rationals where the source computes in IEEE doubles (\<open>9/40\<close> is
  \<open>0.22499999999999998\<close> there).
\<close>

definition compareInputFields :: "inputField list \<Rightarrow> inputField list \<Rightarrow> rat" where
  "compareInputFields inputs1 inputs2 =
     (if length inputs1 = 0 \<and> length inputs2 = 0 then 0
      else
        let types1 = sort (map input_type inputs1);
            types2 = sort (map input_type inputs2);
            typeSimilarity = jaccardSimilarity types1 types2;
            names1 = filter (\<lambda>n. n \<noteq> []) (map input_name inputs1);
            names2 = filter (\<lambda>n. n \<noteq> []) (map input_name inputs2);
            nameSimilarity = jaccardSimilarity names1 names2;
            ids1 = filter (\<lambda>i. i \<noteq> []) (map input_id inputs1);
            ids2 = filter (\<lambda>i. i \<noteq> []) (map input_id inputs2);
            idSimilarity = jaccardSimilarity ids1 ids2
        in typeSimilarity * (4 / 10) + nameSimilarity * (3 / 10) + idSimilarity * (3 / 10))"

subsection \<open>compareHtmlStructure\<close>

text \<open>
  \<open>Math.round\<close> rounds to the nearest integer, a half upwards. On exact rationals it can
  differ by one from the source where the exact score is a half-integer and the double
  falls just below it (\<open>121/2\<close> against \<open>60.499999999999986\<close>, reported as 60). The
  statements below are about scores away from such a boundary (0, 38, 50, 100), about a
  bound that the doubles keep (88), or about symmetry.
\<close>

definition Math_round :: "rat \<Rightarrow> int" where
  "Math_round x = \<lfloor>x + 1 / 2\<rfloor>"

record similarityScore =
  overall :: int
  inputFields_score :: int
  cssClasses_score :: int
  ids_score :: int
  title_score :: int

text \<open>The title comparison of compareHtmlStructure (the constant \<open>titleSimilarity\<close>).\<close>

definition titleSimilarity :: "jsstring \<Rightarrow> jsstring \<Rightarrow> rat" where
  "titleSimilarity title1 title2 =
     (if title1 = title2 then 1
      else if sublist title2 title1 \<or> sublist title1 title2 then 1 / 2 else 0)"

definition compareHtmlStructure :: "('h \<Rightarrow> features) \<Rightarrow> 'h \<Rightarrow> 'h \<Rightarrow> similarityScore" where
  "compareHtmlStructure extract html1 html2 =
     (let features1 = extract html1;
          features2 = extract html2;
          inputSimilarity = compareInputFields (inputFields features1) (inputFields features2);
          cssSimilarity = jaccardSimilarity (cssClasses features1) (cssClasses features2);
          idSimilarity = jaccardSimilarity (ids features1) (ids features2);
          titleSim = titleSimilarity (title features1) (title features2);
          overallSimilarity =
            (inputSimilarity * (4 / 10) + cssSimilarity * (3 / 10)
              + idSimilarity * (2 / 10) + titleSim * (1 / 10)) * 100
      in \<lparr>overall = Math_round overallSimilarity,
          inputFields_score = Math_round (inputSimilarity * 100),
          cssClasses_score = Math_round (cssSimilarity * 100),
          ids_score = Math_round (idSimilarity * 100),
          title_score = Math_round (titleSim * 100)\<rparr>)"

text \<open>The two inputs of the structural example, without an \<open>id\<close> attribute.\<close>

definition pwdInput :: inputField where
  "pwdInput = \<lparr>input_type = js ''password'', input_name = js ''pwd'', input_id = []\<rparr>"

definition userInput :: inputField where
  "userInput = \<lparr>input_type = js ''email'', input_name = js ''user'', input_id = []\<rparr>"

definition loginPage :: features where
  "loginPage = \<lparr>title = js ''Login'', formCount = 1, inputFields = [pwdInput, userInput],
                 cssClasses = [], ids = [], links = [], images = []\<rparr>"

section \<open>Collaborators outside the repository\<close>

text \<open>A call that may throw: \<open>Throws\<close> carries \<open>error.message\<close>.\<close>

datatype 'a outcome = Throws jsstring | Returns 'a

text \<open>
  An anchor as the search-result parsers read it through cheerio: \<open>attr('href')\<close>
  (\<open>None\<close> when the attribute is absent), the trimmed \<open>text()\<close>, and the trimmed text of
  the description element found from the anchor.
\<close>

record anchor =
  href :: "jsstring option"
  anchor_text :: jsstring
  anchor_description :: jsstring

text \<open>What the pipeline reads of the object extractAllData returns.\<close>

record extracted =
  keywords_found :: "(jsstring \<times> nat) list"
  credentials :: "jsstring list"
  clearnet_links :: "jsstring list"

text \<open>
  The network, the HTML parser, the regular-expression engine and the URI coding of the
  language, and the functions of the repository that are built on them. The network
  answers are functions of the requested URL; timeouts and user agents belong to them.
  \<^item> \<open>toLowerCase\<close>: \<open>String.prototype.toLowerCase\<close>;
  \<^item> \<open>fetchUrl\<close>: \<open>httpFetcher.fetchUrl\<close>, the page or the thrown error;
  \<^item> \<open>axiosGet\<close>: \<open>axiosInstance.get(url)\<close> followed by \<open>.data\<close>;
  \<^item> \<open>cheerioSelect sel html\<close>: the anchors \<open>cheerio.load(html)(sel)\<close> iterates over;
  \<^item> \<open>cheerioHiddenInput\<close>: the \<open>name\<close> and \<open>value\<close> attributes of
    \<open>#searchForm input[type="hidden"]\<close>;
  \<^item> \<open>matchRedirectUrl\<close>, \<open>matchAddress\<close>: group 1 of the two regular expressions of
    searchAhmia, \<open>None\<close> when there is no match;
  \<^item> \<open>extractAllData\<close>, \<open>hasLoginForm\<close>, \<open>extractStructuralFeatures\<close>: the functions of
    dataExtractor and htmlSimilarity that parse a document.
\<close>

record collaborators =
  toLowerCase :: "jsstring \<Rightarrow> jsstring"
  fetchUrl :: "jsstring \<Rightarrow> jsstring outcome"
  axiosGet :: "jsstring \<Rightarrow> jsstring outcome"
  cheerioSelect :: "jsstring \<Rightarrow> jsstring \<Rightarrow> anchor list"
  cheerioHiddenInput :: "jsstring \<Rightarrow> jsstring option \<times> jsstring option"
  encodeURIComponent :: "jsstring \<Rightarrow> jsstring"
  decodeURIComponent :: "jsstring \<Rightarrow> jsstring outcome"
  matchRedirectUrl :: "jsstring \<Rightarrow> jsstring option"
  matchAddress :: "jsstring \<Rightarrow> jsstring option"
  extractAllData :: "jsstring \<Rightarrow> jsstring \<Rightarrow> jsstring list \<Rightarrow> extracted outcome"
  hasLoginForm :: "jsstring \<Rightarrow> bool"
  extractStructuralFeatures :: "jsstring \<Rightarrow> features"

text \<open>Truthiness of a string that may be \<open>null\<close> or \<open>undefined\<close>: defined and not empty.\<close>

fun truthy :: "jsstring option \<Rightarrow> bool" where
  "truthy None = False"
| "truthy (Some s) = (s \<noteq> [])"

section \<open>Brand monitoring (analyzeSearchResult)\<close>

text \<open>A search result; the time stamps \<open>found_at\<close> and \<open>analyzed_at\<close> are left out.\<close>

record searchResult =
  sr_title :: jsstring
  sr_url :: jsstring
  sr_description :: jsstring
  source_engine :: jsstring

text \<open>The field \<open>keywords\<close> of the profile is \<open>profile_keywords\<close>.\<close>

record companyProfile =
  companyName :: jsstring
  domains :: "jsstring list"
  profile_keywords :: "jsstring list"
  realLoginUrl :: "jsstring option"

record analysisOptions =
  checkSimilarity :: bool
  crawlHighSimilarity :: bool
  similarityThreshold :: rat

datatype indicator =
  domain_similarity rat jsstring "matchType option"
  | keyword_in_metadata "jsstring list"
  | keyword_match "jsstring list" nat
  | login_form_detected
  | html_similarity int similarityScore
  | credentials_found nat
  | company_domain_mentioned "jsstring list"

datatype severityTier = critical | high | medium | low

record finding =
  f_url :: jsstring
  f_title :: jsstring
  f_description :: jsstring
  f_source_engine :: jsstring
  indicators :: "indicator list"
  severity :: severityTier
  severity_score :: rat
  extracted_data :: "extracted option"
  was_crawled :: "bool option"
  crawl_error :: "jsstring option"
  crawl_reason :: "jsstring option"

definition calculateSeverity :: "rat \<Rightarrow> severityTier" where
  "calculateSeverity score =
     (if score \<ge> 9 then critical
      else if score \<ge> 7 then high
      else if score \<ge> 4 then medium
      else low)"

definition push :: "indicator \<Rightarrow> rat \<Rightarrow> finding \<Rightarrow> finding" where
  "push i points f =
     f\<lparr>indicators := indicators f @ [i], severity_score := severity_score f + points\<rparr>"

text \<open>
  The \<open>try\<close> block of step 3, entered when the gate is open. The list \<open>fetched\<close> records the URLs
  handed to \<open>fetchUrl\<close>. A throwing fetch or extractor leaves the finding as it was and
  sets \<open>crawl_error\<close>; hasLoginForm and compareHtmlStructure are taken not to throw.
\<close>

definition crawl ::
  "collaborators \<Rightarrow> searchResult \<Rightarrow> companyProfile \<Rightarrow> jsstring option \<Rightarrow> analysisOptions
     \<Rightarrow> finding \<Rightarrow> jsstring list \<Rightarrow> finding \<times> jsstring list" where
  "crawl env searchResult profile realSiteHtml opts finding fetched =
     (let fetched' = fetched @ [sr_url searchResult];
          failed = (\<lambda>msg. finding\<lparr>crawl_error := Some msg, was_crawled := Some False\<rparr>)
      in case fetchUrl env (sr_url searchResult) of
           Throws msg \<Rightarrow> (failed msg, fetched')
         | Returns html \<Rightarrow>
             if html = [] then (finding, fetched')
             else (case extractAllData env html (sr_url searchResult) (profile_keywords profile) of
                 Throws msg \<Rightarrow> (failed msg, fetched')
               | Returns ex \<Rightarrow>
                   let f0 = finding\<lparr>extracted_data := Some ex\<rparr>;
                       f1 = (if length (keywords_found ex) > 0
                             then push (keyword_match (map fst (keywords_found ex))
                                          (sum_list (map snd (keywords_found ex)))) 2 f0
                             else f0);
                       f2 = (if hasLoginForm env html then push login_form_detected 3 f1 else f1);
                       f3 = (if checkSimilarity opts \<and> truthy realSiteHtml \<and> hasLoginForm env html
                             then let similarity =
                                        compareHtmlStructure (extractStructuralFeatures env)
                                          html (the realSiteHtml)
                                  in if overall similarity > 60
                                     then push (html_similarity (overall similarity) similarity)
                                            (of_int (overall similarity) / 10) f2
                                     else f2
                             else f2);
                       f4 = (if length (credentials ex) > 0
                             then push (credentials_found (length (credentials ex))) 5 f3
                             else f3);
                       companyDomainMentions =
                         filter (\<lambda>link. list_ex (\<lambda>domain. sublist domain link) (domains profile))
                           (clearnet_links ex);
                       f5 = (if length companyDomainMentions > 0
                             then push (company_domain_mentioned companyDomainMentions) 2 f4
                             else f4)
                   in (f5\<lparr>was_crawled := Some True\<rparr>, fetched')))"

definition skipReason :: jsstring where
  "skipReason = js ''Low similarity - crawling skipped for efficiency''"

definition analyzeSearchResult ::
  "collaborators \<Rightarrow> searchResult \<Rightarrow> companyProfile \<Rightarrow> jsstring option \<Rightarrow> analysisOptions
     \<Rightarrow> jsstring list \<Rightarrow> finding option \<times> jsstring list" where
  "analyzeSearchResult env searchResult profile realSiteHtml opts fetched =
     (let f0 = \<lparr>f_url = sr_url searchResult, f_title = sr_title searchResult,
                 f_description = sr_description searchResult,
                 f_source_engine = source_engine searchResult,
                 indicators = [], severity = low, severity_score = 0,
                 extracted_data = None, was_crawled = None, crawl_error = None,
                 crawl_reason = None\<rparr>;
          domainCheck = checkBrandSimilarity (toLowerCase env) (sr_url searchResult)
                          (profile_keywords profile);
          f1 = (case domainCheck of
                  Some m \<Rightarrow> push (domain_similarity (confidence m) (keyword m) (match_type m))
                             (confidence m / 10) f0
                | None \<Rightarrow> f0);
          textToCheck = toLowerCase env
                          (sr_title searchResult @ js '' '' @ sr_description searchResult);
          keywordMatches = filter (\<lambda>kw. sublist (toLowerCase env kw) textToCheck)
                             (profile_keywords profile);
          f2 = (if length keywordMatches > 0 then push (keyword_in_metadata keywordMatches) 1 f1
                else f1);
          shouldCrawl =
            ((case domainCheck of
                Some m \<Rightarrow> confidence m \<ge> similarityThreshold opts
              | None \<Rightarrow> False)
             \<or> (checkSimilarity opts \<and> truthy realSiteHtml));
          (f3, fetched') =
            (if shouldCrawl then crawl env searchResult profile realSiteHtml opts f2 fetched
             else (f2\<lparr>was_crawled := Some False, crawl_reason := Some skipReason\<rparr>, fetched));
          f4 = f3\<lparr>severity := calculateSeverity (severity_score f3)\<rparr>
      in (if length (indicators f4) > 0 then Some f4 else None, fetched'))"

text \<open>The options analyzeSearchResults passes on when the caller gives none.\<close>

definition defaultOptions :: analysisOptions where
  "defaultOptions = \<lparr>checkSimilarity = True, crawlHighSimilarity = True,
                      similarityThreshold = 70\<rparr>"

definition strictOptions :: analysisOptions where
  "strictOptions = defaultOptions\<lparr>similarityThreshold := 90\<rparr>"

text \<open>
  The best confidence any keyword of the list reaches for a candidate, as the
  specification words the gate: the maximum over the keywords that match.
\<close>

definition bestConfidence :: "(jsstring \<Rightarrow> jsstring) \<Rightarrow> jsstring \<Rightarrow> jsstring list \<Rightarrow> rat option" where
  "bestConfidence lc D ks =
     (case List.map_filter (\<lambda>k. map_option confidence (detect lc D k)) ks of
        [] \<Rightarrow> None
      | c # cs \<Rightarrow> Some (fold max cs c))"

text \<open>Collaborators for the concrete evaluations: every request times out, pages are empty.\<close>

definition offline :: collaborators where
  "offline = \<lparr>toLowerCase = asciiLower,
               fetchUrl = (\<lambda>u. Throws (js ''Timeout'')),
               axiosGet = (\<lambda>u. Throws (js ''Timeout'')),
               cheerioSelect = (\<lambda>sel html. []),
               cheerioHiddenInput = (\<lambda>html. (None, None)),
               encodeURIComponent = (\<lambda>s. s),
               decodeURIComponent = (\<lambda>s. Returns s),
               matchRedirectUrl = (\<lambda>s. None),
               matchAddress = (\<lambda>s. None),
               extractAllData = (\<lambda>html u ks. Returns \<lparr>keywords_found = [], credentials = [],
                                                       clearnet_links = []\<rparr>),
               hasLoginForm = (\<lambda>html. False),
               extractStructuralFeatures =
                 (\<lambda>html. \<lparr>title = [], formCount = 0, inputFields = [], cssClasses = [],
                            ids = [], links = [], images = []\<rparr>)\<rparr>"

definition citiProfile :: companyProfile where
  "citiProfile = \<lparr>companyName = js ''Citibank'', domains = [js ''citibank.com''],
                   profile_keywords = [js ''citibank'', js ''bank''], realLoginUrl = None\<rparr>"

definition citiCandidate :: searchResult where
  "citiCandidate = \<lparr>sr_title = js ''Online banking'', sr_url = js ''http://c1tibank.onion'',
                     sr_description = js ''Sign in'', source_engine = js ''torch''\<rparr>"

text \<open>The indicators that metadata scoring (steps 1 and 2) produces.\<close>

fun isMetadataIndicator :: "indicator \<Rightarrow> bool" where
  "isMetadataIndicator (domain_similarity c k t) = True"
| "isMetadataIndicator (keyword_in_metadata ks) = True"
| "isMetadataIndicator i = False"

section \<open>Multi-engine search (search/multiEngineSearch)\<close>

text \<open>
  The table of engines, in the order of its keys. The table is an object literal: a
  lookup \<open>TOP_SEARCH_ENGINES[name]\<close> finds the URL of an own key (\<open>map_of\<close>), and for the
  name of a member of \<open>Object.prototype\<close> it finds that member, a function or an object,
  which is truthy and is not a string.
\<close>

definition TOP_SEARCH_ENGINES :: "(jsstring \<times> jsstring) list" where
  "TOP_SEARCH_ENGINES =
     [(js ''ahmia'', js ''http://juhanurmihxlp77nkq76byazcldy2hlmovfu2epvl5ankdibsot4csyd.onion''),
      (js ''darksearchio'', js ''http://darksearch.io''),
      (js ''onionland'', js ''http://3bbad7fauom4d6sgppalyqddsqbf5u5p56b5k5uk2zxsy3d6ey2jobad.onion''),
      (js ''darksearchengine'', js ''http://l4rsciqnpzdndt2llgjx3luvnxip7vbyj6k6nmdy4xs77tx6gkd24ead.onion''),
      (js ''phobos'', js ''http://phobosxilamwcg75xt22id7aywkzol6q6rfl2flipcqoc4e4ahima5id.onion''),
      (js ''onionsearchserver'', js ''http://3fzh7yuupdfyjhwt3ugzqqof6ulbcl27ecev33knxe3u7goi3vfn2qqd.onion''),
      (js ''torgle'', js ''http://no6m4wzdexe3auiupv2zwif7rm6qwxcyhslkcnzisxgeiw6pvjsgafad.onion''),
      (js ''tor66'', js ''http://tor66sewebgixwhcqfnp5inzp5x5uohhdy3kvtnyfxc2e5mxiuh34iid.onion''),
      (js ''haystak'', js ''http://haystak5njsmn2hqkewecpaxetahtwhsbsa64jom2k22z5afxhnpxfid.onion''),
      (js ''torch'', js ''http://xmh57jrknzkhv6y3ls3ubitzfqnkrwxhopf5aygthi7d6rplyvk3noyd.onion''),
      (js ''ahmia_clearnet'', js ''https://ahmia.fi''),
      (js ''bobby'', js ''http://bobby64o755x3gsuznts6hf6agxqjcz5bop6hs7ejorekbm7omes34ad.onion''),
      (js ''sentor'', js ''http://e27slbec2ykiyo26gfuovaehuzsydffbit5nlxid53kigw3pvz6uosqd.onion''),
      (js ''gdark'', js ''http://zb2jtkhnbvhkya3d46twv3g7lkobi4s62tjffqmafjibixk6pmq75did.onion''),
      (js ''kraken'', js ''http://krakenai2gmgwwqyo7bcklv2lzcvhe7cxzzva2xpygyax5f33oqnxpad.onion''),
      (js ''deepsearch'', js ''http://search7tdrcvri22rieiwgi5g46qnwsesvnubqav2xakhezv4hjzkkad.onion''),
      (js ''demon'', js ''http://srcdemonm74icqjvejew6fprssuolyoc2usjdwflevbdpqoetw4x3ead.onion''),
      (js ''visitor'', js ''http://uzowkytjk4da724giztttfly4rugfnbqkexecotfp5wjc2uhpykrpryd.onion''),
      (js ''venus'', js ''http://venusoseaqnafjvzfmrcpcq6g47rhd7sa6nmzvaa4bj5rp6nm5jl7gad.onion''),
      (js ''danex'', js ''http://danexio627wiswvlpt6ejyhpxl5gla5nt2tgvgm2apj2ofrgxtyxrhokfqd.onion'')]"

definition inheritedNames :: "jsstring list" where
  "inheritedNames =
     [js ''constructor'', js ''__defineGetter__'', js ''__defineSetter__'',
      js ''hasOwnProperty'', js ''__lookupGetter__'', js ''__lookupSetter__'',
      js ''isPrototypeOf'', js ''propertyIsEnumerable'', js ''toString'', js ''valueOf'',
      js ''__proto__'', js ''toLocaleString'']"

text \<open>The test \<open>TOP_SEARCH_ENGINES[key]\<close> of the engine filter.\<close>

definition engineListed :: "jsstring \<Rightarrow> bool" where
  "engineListed key \<longleftrightarrow> map_of TOP_SEARCH_ENGINES key \<noteq> None \<or> key \<in> set inheritedNames"

text \<open>A template literal prints a missing engine URL as \<open>undefined\<close>.\<close>

definition template :: "jsstring option \<Rightarrow> jsstring" where
  "template v = (case v of None \<Rightarrow> js ''undefined'' | Some s \<Rightarrow> s)"

text \<open>
  \<open>patterns[engineName] || fallback\<close>. The object \<open>patterns\<close> has the inherited members too:
  for their names the result is that member, not a string (\<open>None\<close>).
\<close>

definition buildSearchUrl ::
  "collaborators \<Rightarrow> jsstring \<Rightarrow> jsstring option \<Rightarrow> jsstring \<Rightarrow> jsstring option" where
  "buildSearchUrl env engineName engineUrl query =
     (let q = encodeURIComponent env query;
          u = template engineUrl;
          patterns =
       [(js ''darksearchio'', u @ js ''/api/search?query='' @ q),
        (js ''haystak'', u @ js ''/?q='' @ q),
        (js ''torch'', u @ js ''/search?query='' @ q @ js ''&action=search''),
        (js ''onionland'', u @ js ''/search?q='' @ q),
        (js ''phobos'', u @ js ''/search?query='' @ q),
        (js ''bobby'', u @ js ''?q='' @ q),
        (js ''sentor'', u @ js ''/search?q='' @ q),
        (js ''tor66'', u @ js ''/search?q='' @ q),
        (js ''gdark'', u @ js ''/search.php?query='' @ q),
        (js ''kraken'', u @ js ''/search?q='' @ q),
        (js ''demon'', u @ js ''/search?q='' @ q),
        (js ''visitor'', u @ js ''/?q='' @ q),
        (js ''venus'', u @ js ''/search?q='' @ q),
        (js ''danex'', u @ js ''/search?q='' @ q),
        (js ''torgle'', u @ js ''/search?q='' @ q),
        (js ''onionsearchserver'', u @ js ''/search?q='' @ q),
        (js ''darksearchengine'', u @ js ''/search?q='' @ q),
        (js ''deepsearch'', u @ js ''/search?q='' @ q),
        (js ''ahmia_clearnet'', u @ js ''/search/?q='' @ q)]
      in if engineName \<in> set inheritedNames then None
         else (case map_of patterns engineName of
                 Some p \<Rightarrow> Some p
               | None \<Rightarrow> Some (u @ js ''/search?q='' @ q)))"

subsection \<open>normalizeOnionUrl\<close>

text \<open>\<open>url.replace(/^https?:\/\//, '')\<close> removes a leading \<open>http://\<close> or \<open>https://\<close>.\<close>

definition normalizeOnionUrl :: "jsstring \<Rightarrow> jsstring" where
  "normalizeOnionUrl url =
     (let normalized =
            (if prefix (js ''http://'') url then drop 7 url
             else if prefix (js ''https://'') url then drop 8 url
             else url)
      in if \<not> prefix (js ''http'') normalized then js ''http://'' @ normalized
         else normalized)"

subsection \<open>parseSearchResults\<close>

text \<open>
  The callback of \<open>each\<close>, over the anchors in document order; \<open>return false\<close> ends the
  iteration. The state is the array \<open>results\<close> and the shared set \<open>seenUrls\<close>.
\<close>

fun parseEach ::
  "jsstring \<Rightarrow> int \<Rightarrow> anchor list \<Rightarrow> searchResult list \<times> jsstring set
     \<Rightarrow> searchResult list \<times> jsstring set" where
  "parseEach engineName maxResults [] (results, seenUrls) = (results, seenUrls)"
| "parseEach engineName maxResults (elem # elems) (results, seenUrls) =
     (if int (length results) \<ge> maxResults then (results, seenUrls)
      else if truthy (href elem) \<and> sublist dotOnion (the (href elem))
      then (let normalizedUrl = normalizeOnionUrl (the (href elem));
                title = anchor_text elem
            in if normalizedUrl \<notin> seenUrls
               then parseEach engineName maxResults elems
                      (results @ [\<lparr>sr_title = (if title \<noteq> [] then title else normalizedUrl),
                                    sr_url = normalizedUrl,
                                    sr_description = anchor_description elem,
                                    source_engine = engineName\<rparr>],
                       insert normalizedUrl seenUrls)
               else parseEach engineName maxResults elems (results, seenUrls))
      else parseEach engineName maxResults elems (results, seenUrls))"

definition parseSearchResults ::
  "collaborators \<Rightarrow> jsstring \<Rightarrow> jsstring \<Rightarrow> int \<Rightarrow> jsstring set
     \<Rightarrow> searchResult list \<times> jsstring set" where
  "parseSearchResults env engineName html maxResults seenUrls =
     (let selector =
            (if sublist (js ''haystak'') engineName then js ''.result a.title''
             else if sublist (js ''torch'') engineName then js ''.result-block a''
             else if sublist (js ''onionland'') engineName then js ''.title a''
             else js ''a[href]'')
      in parseEach engineName maxResults (cheerioSelect env selector html) ([], seenUrls))"

subsection \<open>searchAhmia\<close>

text \<open>The value a search task resolves to: \<open>{engine, results}\<close> or \<open>{engine, error, results: []}\<close>.\<close>

record engineValue =
  engine :: jsstring
  engine_error :: "jsstring option"
  engine_results :: "searchResult list"

definition succeeded :: "jsstring \<Rightarrow> searchResult list \<Rightarrow> engineValue" where
  "succeeded name rs = \<lparr>engine = name, engine_error = None, engine_results = rs\<rparr>"

definition failed :: "jsstring \<Rightarrow> jsstring \<Rightarrow> engineValue" where
  "failed name msg = \<lparr>engine = name, engine_error = Some msg, engine_results = []\<rparr>"

text \<open>
  The three formats of an Ahmia link. \<open>decodeURIComponent\<close> may throw; the exception
  leaves the loop and is caught by searchAhmia.
\<close>

definition ahmiaTarget :: "collaborators \<Rightarrow> jsstring \<Rightarrow> jsstring option outcome" where
  "ahmiaTarget env h =
     (if sublist (js ''redirect_url='') h
      then (case matchRedirectUrl env h of
              Some m \<Rightarrow> if m \<noteq> [] then
                          (case decodeURIComponent env m of
                             Throws msg \<Rightarrow> Throws msg
                           | Returns u \<Rightarrow> Returns (Some u))
                        else Returns None
            | None \<Rightarrow> Returns None)
      else if sublist (js ''/address/'') h
      then (case matchAddress env h of
              Some m \<Rightarrow> Returns (Some (js ''http://'' @ m))
            | None \<Rightarrow> Returns None)
      else if sublist dotOnion h then Returns (Some h)
      else Returns None)"

fun ahmiaEach ::
  "collaborators \<Rightarrow> int \<Rightarrow> anchor list \<Rightarrow> searchResult list \<times> jsstring set
     \<Rightarrow> searchResult list outcome \<times> jsstring set" where
  "ahmiaEach env maxResults [] (results, seenUrls) = (Returns results, seenUrls)"
| "ahmiaEach env maxResults (elem # elems) (results, seenUrls) =
     (if int (length results) \<ge> maxResults then (Returns results, seenUrls)
      else if truthy (href elem)
      then (case ahmiaTarget env (the (href elem)) of
              Throws msg \<Rightarrow> (Throws msg, seenUrls)
            | Returns url \<Rightarrow>
                if truthy url \<and> sublist dotOnion (the url)
                then (let normalizedUrl = normalizeOnionUrl (the url);
                          title = anchor_text elem
                      in if normalizedUrl \<notin> seenUrls
                         then ahmiaEach env maxResults elems
                                (results @ [\<lparr>sr_title = (if title \<noteq> [] then title
                                                           else normalizedUrl),
                                              sr_url = normalizedUrl,
                                              sr_description = anchor_description elem,
                                              source_engine = js ''ahmia''\<rparr>],
                                 insert normalizedUrl seenUrls)
                         else ahmiaEach env maxResults elems (results, seenUrls))
                else ahmiaEach env maxResults elems (results, seenUrls))
      else ahmiaEach env maxResults elems (results, seenUrls))"

definition searchAhmia ::
  "collaborators \<Rightarrow> jsstring option \<Rightarrow> jsstring \<Rightarrow> int \<Rightarrow> jsstring set
     \<Rightarrow> engineValue \<times> jsstring set" where
  "searchAhmia env baseUrl query maxResults seenUrls =
     (case axiosGet env (template baseUrl @ js ''/'') of
        Throws msg \<Rightarrow> (failed (js ''ahmia'') msg, seenUrls)
      | Returns home \<Rightarrow>
          (case cheerioHiddenInput env home of (paramName, paramValue) \<Rightarrow>
             if \<not> truthy paramName \<or> \<not> truthy paramValue
             then (failed (js ''ahmia'') (js ''Could not find search token''), seenUrls)
             else (let searchUrl = template baseUrl @ js ''/search/?q=''
                                     @ encodeURIComponent env query @ js ''&''
                                     @ the paramName @ js ''='' @ the paramValue
                   in case axiosGet env searchUrl of
                        Throws msg \<Rightarrow> (failed (js ''ahmia'') msg, seenUrls)
                      | Returns page \<Rightarrow>
                          (case ahmiaEach env maxResults
                                  (cheerioSelect env (js ''li.result a'') page) ([], seenUrls) of
                             (Throws msg, seen') \<Rightarrow> (failed (js ''ahmia'') msg, seen')
                           | (Returns results, seen') \<Rightarrow>
                               (succeeded (js ''ahmia'') results, seen')))))"

subsection \<open>searchEngine\<close>

text \<open>
  A search URL that is not a string makes \<open>fetchUrl\<close> throw a TypeError at
  \<open>url.includes('.onion')\<close>, before any request; the \<open>catch\<close> turns it into a failure.
\<close>

definition searchEngine ::
  "collaborators \<Rightarrow> jsstring \<Rightarrow> jsstring \<Rightarrow> int \<Rightarrow> jsstring set \<Rightarrow> engineValue \<times> jsstring set" where
  "searchEngine env engineName query maxResults seenUrls =
     (let engineUrl = map_of TOP_SEARCH_ENGINES engineName
      in if engineName = js ''ahmia''
         then searchAhmia env engineUrl query maxResults seenUrls
         else (case buildSearchUrl env engineName engineUrl query of
                 None \<Rightarrow> (failed engineName (js ''url.includes is not a function''), seenUrls)
               | Some searchUrl \<Rightarrow>
                   (case fetchUrl env searchUrl of
                      Throws msg \<Rightarrow> (failed engineName msg, seenUrls)
                    | Returns html \<Rightarrow>
                        (case parseSearchResults env engineName html maxResults seenUrls of
                           (results, seen') \<Rightarrow> (succeeded engineName results, seen')))))"

subsection \<open>multiEngineSearch\<close>

text \<open>
  The tasks run concurrently on one thread. A task touches \<open>seenUrls\<close> only in the loop
  over the anchors of its answer, which runs without suspension: the tasks act on the set
  one after the other, in the order in which their answers arrive. \<open>arrival i\<close> is the
  arrival time of the answer of task \<open>i\<close> (equal times: the order of the tasks).
\<close>

definition arrivalOrder :: "(nat \<Rightarrow> nat) \<Rightarrow> nat \<Rightarrow> nat list" where
  "arrivalOrder arrival n = sort_key arrival [0..<n]"

text \<open>The set after the tasks \<open>ts\<close> have handled their answers, in that order.\<close>

definition seenAfter ::
  "collaborators \<Rightarrow> jsstring \<Rightarrow> int \<Rightarrow> jsstring list \<Rightarrow> nat list \<Rightarrow> jsstring set" where
  "seenAfter env query maxResults names ts =
     fold (\<lambda>i seen. snd (searchEngine env (names ! i) query maxResults seen)) ts {}"

text \<open>The tasks that handle their answers before task \<open>i\<close> does.\<close>

definition before :: "nat list \<Rightarrow> nat \<Rightarrow> nat list" where
  "before order i = takeWhile (\<lambda>j. j \<noteq> i) order"

text \<open>The value task \<open>i\<close> resolves to.\<close>

definition taskValue ::
  "collaborators \<Rightarrow> jsstring \<Rightarrow> int \<Rightarrow> jsstring list \<Rightarrow> nat list \<Rightarrow> nat \<Rightarrow> engineValue" where
  "taskValue env query maxResults names order i =
     fst (searchEngine env (names ! i) query maxResults
            (seenAfter env query maxResults names (before order i)))"

text \<open>An entry of the array that \<open>Promise.allSettled\<close> resolves to.\<close>

datatype settled = fulfilled engineValue | rejected jsstring

record searchOptions =
  maxResultsPerEngine :: int
  timeout :: nat

definition defaultSearchOptions :: searchOptions where
  "defaultSearchOptions = \<lparr>maxResultsPerEngine = 20, timeout = 30000\<rparr>"

text \<open>The returned object; the time stamp \<open>searched_at\<close> is left out.\<close>

record searchOutput =
  out_query :: jsstring
  engines_used :: "jsstring list"
  total_engines :: nat
  results :: "searchResult list"
  errors :: "(jsstring \<times> jsstring) list"
  total_results :: nat

text \<open>An array is an object, and every object is truthy: also the empty array.\<close>

definition truthy_array :: "'a list \<Rightarrow> bool" where
  "truthy_array xs = True"

text \<open>The body of the loop over the settled tasks, for the entry of \<open>engineName\<close>.\<close>

definition collect :: "jsstring \<times> settled \<Rightarrow> searchOutput \<Rightarrow> searchOutput" where
  "collect entry out =
     (case entry of
        (engineName, fulfilled v) \<Rightarrow>
          if truthy_array (engine_results v)
          then out\<lparr>results := results out @ engine_results v\<rparr>
          else out\<lparr>errors := errors out
                      @ [(engineName,
                          if truthy (engine_error v) then the (engine_error v)
                          else js ''Unknown error'')]\<rparr>
      | (engineName, rejected reason) \<Rightarrow>
          out\<lparr>errors := errors out
                 @ [(engineName, if reason \<noteq> [] then reason else js ''Unknown error'')]\<rparr>)"

definition multiEngineSearch ::
  "collaborators \<Rightarrow> (nat \<Rightarrow> nat) \<Rightarrow> jsstring \<Rightarrow> jsstring list option \<Rightarrow> searchOptions
     \<Rightarrow> searchOutput" where
  "multiEngineSearch env arrival query engines options =
     (let enginesToUse =
            (case engines of
               Some es \<Rightarrow>
                 filter (\<lambda>e. engineListed (toLowerCase env e)) es
             | None \<Rightarrow> map fst TOP_SEARCH_ENGINES);
          order = arrivalOrder arrival (length enginesToUse);
          engineResults =
            map (\<lambda>i. fulfilled (taskValue env query (maxResultsPerEngine options)
                                  enginesToUse order i))
              [0..<length enginesToUse];
          out0 = \<lparr>out_query = query, engines_used = enginesToUse,
                   total_engines = length enginesToUse, results = [], errors = [],
                   total_results = 0\<rparr>;
          out1 = fold collect (zip enginesToUse engineResults) out0
      in out1\<lparr>total_results := length (results out1)\<rparr>)"

subsection \<open>Two concrete networks\<close>

text \<open>
  \<open>mirrors\<close>: every fetch succeeds; torch lists \<open>http://abc.onion\<close> and a page of its
  own, haystak lists \<open>https://abc.onion\<close> (the same URL once normalised) and a page of its
  own. \<open>torchDown\<close>: the same, except that every request but the one to haystak times out.
\<close>

definition link :: "string \<Rightarrow> string \<Rightarrow> anchor" where
  "link h t = \<lparr>href = Some (js h), anchor_text = js t, anchor_description = []\<rparr>"

definition mirrors :: collaborators where
  "mirrors = offline\<lparr>
     fetchUrl := (\<lambda>u. Returns u),
     cheerioSelect := (\<lambda>sel html.
       if sel = js ''.result-block a''
         then [link ''http://abc.onion'' ''Abc'', link ''http://torchonly.onion'' ''T'']
       else if sel = js ''.result a.title''
         then [link ''https://abc.onion'' ''Abc mirror'', link ''http://hayonly.onion'' ''H'']
       else [])\<rparr>"

definition torchDown :: collaborators where
  "torchDown = mirrors\<lparr>
     fetchUrl := (\<lambda>u. if sublist (js ''haystak'') u then Returns u
                        else Throws (js ''Timeout''))\<rparr>"

definition torchAndHaystak :: "jsstring list option" where
  "torchAndHaystak = Some [js ''torch'', js ''haystak'']"

definition urlsOf :: "searchResult list \<Rightarrow> jsstring set" where
  "urlsOf rs = sr_url ` set rs"

text \<open>
  \<open>lossy\<close>: Ahmia answers with a token and a result page that lists \<open>http://abc.onion\<close>
  and then a redirect link whose target is malformed percent-encoding, on which
  \<open>decodeURIComponent\<close> throws a URIError; torch lists what it lists in \<open>mirrors\<close>.
\<close>

definition lossy :: collaborators where
  "lossy = mirrors\<lparr>
     axiosGet := (\<lambda>u. Returns u),
     cheerioHiddenInput := (\<lambda>html. (Some (js ''a1b2''), Some (js ''c3d4''))),
     cheerioSelect := (\<lambda>sel html.
       if sel = js ''li.result a''
         then [link ''http://abc.onion'' ''Abc'',
               link ''/search/redirect?redirect_url=http%E0%A4%A'' ''Broken'']
       else cheerioSelect mirrors sel html),
     matchRedirectUrl := (\<lambda>h.
       if h = js ''/search/redirect?redirect_url=http%E0%A4%A'' then Some (js ''http%E0%A4%A'')
       else None),
     decodeURIComponent := (\<lambda>s.
       if s = js ''http%E0%A4%A'' then Throws (js ''URI malformed'') else Returns s)\<rparr>"

definition ahmiaAndTorch :: "jsstring list option" where
  "ahmiaAndTorch = Some [js ''ahmia'', js ''torch'']"

text \<open>Arrival times under which the answer of the second of two tasks arrives first.\<close>

definition secondFirst :: "nat \<Rightarrow> nat" where
  "secondFirst i = 1 - i"

text \<open>The URL and the engine of each result.\<close>

definition attribution :: "searchResult list \<Rightarrow> (jsstring \<times> jsstring) list" where
  "attribution rs = map (\<lambda>r. (sr_url r, source_engine r)) rs"

subsection \<open>What a standard backend lists\<close>

text \<open>
  The normalised URLs of the anchors that pass the \<open>.onion\<close> test, in document order,
  and a list without its repetitions, each element at its first position.
\<close>

definition onionTargets :: "anchor list \<Rightarrow> jsstring list" where
  "onionTargets elems =
     map (\<lambda>e. normalizeOnionUrl (the (href e)))
       (filter (\<lambda>e. truthy (href e) \<and> sublist dotOnion (the (href e))) elems)"

fun firsts :: "'a list \<Rightarrow> 'a list" where
  "firsts [] = []"
| "firsts (x # xs) = x # firsts (removeAll x xs)"

section \<open>Properties of the domain similarity functions\<close>

subsection \<open>The matrix of levenshteinDistance\<close>

lemma lev_Nil2: "lev xs [] = length xs"
  by (cases xs) simp_all

lemma lev_cell_0_right: "i \<le> length b \<Longrightarrow> lev_cell a b i 0 = i"
  by (simp add: lev_cell_def lev_Nil2)

lemma lev_cell_Suc:
  assumes "i < length b" "j < length a"
  shows "lev_cell a b (Suc i) (Suc j) =
           (if b ! i = a ! j then lev_cell a b i j
            else min (lev_cell a b i j + 1)
                   (min (lev_cell a b (Suc i) j + 1) (lev_cell a b i (Suc j) + 1)))"
  using assms by (simp add: lev_cell_def take_Suc_conv_app_nth)

text \<open>The inner loop, run up to column \<open>n\<close>, has filled row \<open>i\<close> up to that column.\<close>

lemma fill_row_prefix:
  assumes "1 \<le> i" "i \<le> length b" "length m = Suc (length b)"
    and "m ! (i - 1) = map (lev_cell a b (i - 1)) [0..<Suc (length a)]"
    and "m ! i = [i]"
    and "n \<le> length a"
  shows "fold (\<lambda>j m. set_cell m i j (cell_value a b m i j)) [1..<Suc n] m
           = m[i := map (lev_cell a b i) [0..<Suc n]]"
  using assms(6)
proof (induction n)
  case 0
  have "m[i := [lev_cell a b i 0]] = m"
    using assms by (simp add: lev_cell_0_right list_update_same_conv)
  then show ?case by simp
next
  case (Suc n)
  let ?m' = "m[i := map (lev_cell a b i) [0..<Suc n]]"
  from Suc have n: "n < length a" by simp
  obtain k where k: "i = Suc k" using assms(1) by (cases i) auto
  have kb: "k < length b" using assms(2) k by simp
  have im: "i < length m" "k < length m" using assms k by simp_all
  have prev: "?m' ! k = map (lev_cell a b k) [0..<Suc (length a)]"
    using assms(4) k im by simp
  have cur: "?m' ! i = map (lev_cell a b i) [0..<Suc n]"
    using im by simp
  have p1: "?m' ! k ! n = lev_cell a b k n"
    unfolding prev using n by (simp only: nth_map_upt) simp
  have p2: "?m' ! k ! Suc n = lev_cell a b k (Suc n)"
    unfolding prev using n by (simp only: nth_map_upt) simp
  have p3: "?m' ! i ! n = lev_cell a b i n"
    unfolding cur by (simp only: nth_map_upt) simp
  have cv: "cell_value a b ?m' i (Suc n) = lev_cell a b i (Suc n)"
    unfolding cell_value_def k
    using p1 p2 p3 lev_cell_Suc[OF kb n] by (simp add: k)
  have "fold (\<lambda>j m. set_cell m i j (cell_value a b m i j)) [1..<Suc (Suc n)] m
          = set_cell ?m' i (Suc n) (cell_value a b ?m' i (Suc n))"
    using Suc by simp
  also have "\<dots> = ?m'[i := map (lev_cell a b i) [0..<Suc n] @ [lev_cell a b i (Suc n)]]"
    unfolding set_cell_def cv cur by (simp add: js_assign_def)
  also have "\<dots> = m[i := map (lev_cell a b i) [0..<Suc (Suc n)]]"
    by simp
  finally show ?case .
qed

lemma fill_row_eq:
  assumes "1 \<le> i" "i \<le> length b" "length m = Suc (length b)"
    and "m ! (i - 1) = map (lev_cell a b (i - 1)) [0..<Suc (length a)]"
    and "m ! i = [i]"
  shows "fill_row a b i m = m[i := map (lev_cell a b i) [0..<Suc (length a)]]"
  unfolding fill_row_def using fill_row_prefix[OF assms, of "length a"] by simp

lemma first_row_prefix:
  "n \<le> length a \<Longrightarrow> m \<noteq> [] \<Longrightarrow> hd m = [0] \<Longrightarrow>
   fold (\<lambda>j m. set_cell m 0 j j) [0..<Suc n] m = m[0 := [0..<Suc n]]"
proof (induction n)
  case 0
  then show ?case by (cases m) (simp_all add: set_cell_def js_assign_def)
next
  case (Suc n)
  then show ?case by (cases m) (simp_all add: set_cell_def js_assign_def)
qed

text \<open>The outer loop, run up to row \<open>k\<close>, has filled the rows up to \<open>k\<close>.\<close>

lemma rows_prefix:
  assumes "k \<le> length b"
  shows "fold (fill_row a b) [1..<Suc k] (lev_matrix a b 0) = lev_matrix a b k"
  using assms
proof (induction k)
  case 0
  then show ?case by simp
next
  case (Suc k)
  let ?m = "lev_matrix a b k"
  have len: "length ?m = Suc (length b)" using Suc.prems by (simp add: lev_matrix_def)
  have prev: "?m ! (Suc k - 1) = map (lev_cell a b (Suc k - 1)) [0..<Suc (length a)]"
    by (simp add: lev_matrix_def nth_append del: upt_Suc)
  have cur: "?m ! Suc k = [Suc k]"
    using Suc.prems by (simp add: lev_matrix_def nth_append del: upt_Suc)
  have "fold (fill_row a b) [1..<Suc (Suc k)] (lev_matrix a b 0) = fill_row a b (Suc k) ?m"
    using Suc by simp
  also have "\<dots> = ?m[Suc k := map (lev_cell a b (Suc k)) [0..<Suc (length a)]]"
    using fill_row_eq[OF _ _ len prev cur] Suc.prems by simp
  also have "\<dots> = lev_matrix a b (Suc k)"
    using Suc.prems
    by (simp add: lev_matrix_def list_update_append upt_conv_Cons[of "Suc k"]
          upt_Suc_append[of 0 "Suc k"] del: upt_Suc)
  finally show ?case .
qed

lemma levenshteinDistance_lev: "levenshteinDistance a b = lev (rev b) (rev a)"
proof -
  let ?m0 = "map (\<lambda>i. [i]) [0..<Suc (length b)]"
  have m0: "?m0 = [0] # map (\<lambda>i. [i]) [Suc 0..<Suc (length b)]"
    by (simp add: upt_conv_Cons del: upt_Suc)
  have row0: "[0..<Suc (length a)] = map (lev_cell a b 0) [0..<Suc (length a)]"
    by (rule nth_equalityI) (simp_all add: lev_cell_def del: upt_Suc)
  have one: "[0..<Suc 0] = [0]" by simp
  have m1: "fold (\<lambda>j m. set_cell m 0 j j) [0..<Suc (length a)] ?m0 = lev_matrix a b 0"
    using first_row_prefix[of "length a" a ?m0] row0
    by (simp add: m0 lev_matrix_def one del: upt_Suc)
  have "levenshteinDistance a b = lev_matrix a b (length b) ! length b ! length a"
    unfolding levenshteinDistance_def Let_def m1 using rows_prefix[of "length b" b a] by simp
  also have "\<dots> = lev_cell a b (length b) (length a)"
    by (simp add: lev_matrix_def nth_append del: upt_Suc)
  finally show ?thesis by (simp add: lev_cell_def)
qed

lemma lev_sym: "lev xs ys = lev ys xs"
  by (induction xs ys rule: lev.induct) (simp_all add: lev_Nil2 min.commute min.left_commute)

lemma lev_refl: "lev xs xs = 0"
  by (induction xs) simp_all

text \<open>
  Claim C9. For all strings \<open>a\<close> and \<open>b\<close>, \<open>levenshteinDistance(a, b)\<close> equals
  \<open>levenshteinDistance(b, a)\<close>, and \<open>levenshteinDistance(a, a)\<close> is 0.
\<close>

theorem C9_levenshtein_symmetric_and_zero_on_equal:
  "levenshteinDistance a b = levenshteinDistance b a \<and> levenshteinDistance a a = 0"
  by (simp add: levenshteinDistance_lev lev_refl lev_sym[of "rev b" "rev a"])

subsection \<open>The detector\<close>

lemma omissionLoop_iff:
  "omissionLoop c k \<longleftrightarrow> (\<exists>i<length k. c = take i k @ drop (Suc i) k)"
  by (auto simp: omissionLoop_def list_ex_iff)

lemma additionLoop_iff:
  "additionLoop c k \<longleftrightarrow>
     (\<exists>i ch. i \<le> length k \<and> 97 \<le> ch \<and> ch \<le> 122 \<and> c = take i k @ ch # drop i k)"
proof -
  have "\<And>ch::nat. ch \<in> {97..<123} \<longleftrightarrow> 97 \<le> ch \<and> ch \<le> 122" by auto
  moreover have "\<And>i. i \<in> {0..<Suc (length k)} \<longleftrightarrow> i \<le> length k" by auto
  ultimately show ?thesis
    unfolding additionLoop_def list_ex_iff set_upt Bex_def by (simp add: append_Cons)
qed

lemma swapLoop_iff:
  "swapLoop c k \<longleftrightarrow>
     (\<exists>i. Suc i < length k \<and> c = take i k @ k ! Suc i # k ! i # drop (i + 2) k)"
  unfolding swapLoop_def list_ex_iff by (auto simp: less_diff_conv)

lemma HOMOGLYPHS_single:
  "HOMOGLYPHS c = Some hs \<Longrightarrow> h \<in> set hs \<Longrightarrow> \<exists>x. h = [x] \<and> x \<noteq> c"
  by (auto simp: HOMOGLYPHS_def split: if_splits)

lemma sublist_same_length: "sublist xs ys \<Longrightarrow> length xs = length ys \<Longrightarrow> xs = ys"
  by (auto simp: sublist_def)

lemma spec_homoglyph_differs: "spec_homoglyph c k \<Longrightarrow> c \<noteq> k"
proof
  assume h: "spec_homoglyph c k" and eq: "c = k"
  then obtain i hs h where i: "i < length k" and hs: "HOMOGLYPHS (k ! i) = Some hs" "h \<in> set hs"
    and sub: "sublist (take i k @ h @ drop (Suc i) k) k"
    unfolding spec_homoglyph_def by blast
  from HOMOGLYPHS_single[OF hs] obtain x where x: "h = [x]" "x \<noteq> k ! i" by blast
  have "length (take i k @ h @ drop (Suc i) k) = length k" using i x by simp
  with sub have "take i k @ h @ drop (Suc i) k = k" by (rule sublist_same_length)
  then have "(take i k @ h @ drop (Suc i) k) ! i = k ! i" by simp
  then show False using x i by (simp add: nth_append)
qed

lemma detectHomoglyph_iff:
  "detectHomoglyph lc s k \<longleftrightarrow> spec_homoglyph (replaceOnion (lc s)) (lc k)"
proof -
  let ?c = "replaceOnion (lc s)" and ?k = "lc k"
  have loop: "list_ex (\<lambda>i. case HOMOGLYPHS (?k ! i) of None \<Rightarrow> False
                 | Some hs \<Rightarrow> list_ex (\<lambda>h. sublist (take i ?k @ h @ drop (i + 1) ?k) ?c) hs)
               [0..<length ?k] \<longleftrightarrow> spec_homoglyph ?c ?k"
  proof
    assume "list_ex (\<lambda>i. case HOMOGLYPHS (?k ! i) of None \<Rightarrow> False
                 | Some hs \<Rightarrow> list_ex (\<lambda>h. sublist (take i ?k @ h @ drop (i + 1) ?k) ?c) hs)
               [0..<length ?k]"
    then obtain i hs h where "i < length ?k" "HOMOGLYPHS (?k ! i) = Some hs" "h \<in> set hs"
        "sublist (take i ?k @ h @ drop (Suc i) ?k) ?c"
      unfolding list_ex_iff by (auto split: option.splits)
    then show "spec_homoglyph ?c ?k" unfolding spec_homoglyph_def by blast
  next
    assume "spec_homoglyph ?c ?k"
    then obtain i hs h where "i < length ?k" "HOMOGLYPHS (?k ! i) = Some hs" "h \<in> set hs"
        "sublist (take i ?k @ h @ drop (Suc i) ?k) ?c"
      unfolding spec_homoglyph_def by blast
    then show "list_ex (\<lambda>i. case HOMOGLYPHS (?k ! i) of None \<Rightarrow> False
                 | Some hs \<Rightarrow> list_ex (\<lambda>h. sublist (take i ?k @ h @ drop (i + 1) ?k) ?c) hs)
               [0..<length ?k]"
      unfolding list_ex_iff by (intro bexI[of _ i]) (auto intro: bexI[of _ h])
  qed
  show ?thesis
    using loop spec_homoglyph_differs[of ?c ?k]
    by (auto simp: detectHomoglyph_def Let_def)
qed

lemma calculateSimilarity_spec:
  "c \<noteq> k \<Longrightarrow> calculateSimilarity c k = Some (spec_similarity c k)"
  by (cases c; cases k) (simp_all add: calculateSimilarity_def spec_similarity_def Let_def)

lemma omission_rule: "int (length c) = int (length k) - 1 \<and> omissionLoop c k \<longleftrightarrow> spec_omission c k"
  by (simp add: omissionLoop_iff spec_omission_def)

lemma addition_rule: "length c = length k + 1 \<and> additionLoop c k \<longleftrightarrow> spec_addition c k"
  by (simp add: additionLoop_iff spec_addition_def)

lemma swap_rule: "length c = length k \<and> swapLoop c k \<longleftrightarrow> spec_swap c k"
  by (simp add: swapLoop_iff spec_swap_def)

lemma detectTyposquatting_cascade:
  "detectTyposquatting lc s k =
     (let c = replaceOnion (lc s); l = lc k
      in if c = l then typoNone
         else if spec_omission c l then typoFound character_omission 95
         else if spec_addition c l then typoFound character_addition 90
         else if spec_swap c l then typoFound character_swap 95
         else if spec_homoglyph (replaceOnion (lc c)) (lc l) then typoFound homoglyph 85
         else if spec_similarity c l > 80 then typoFound high_similarity (spec_similarity c l)
         else typoNone)"
proof (cases "replaceOnion (lc s) = lc k")
  case True
  then show ?thesis by (simp add: detectTyposquatting_def Let_def)
next
  case False
  then show ?thesis
    unfolding detectTyposquatting_def Let_def omission_rule addition_rule swap_rule
      detectHomoglyph_iff calculateSimilarity_spec[OF False]
    by simp
qed

text \<open>
  Claim C1 (as amended). For every candidate domain \<open>D\<close> and keyword \<open>K\<close> the detector
  returns one result, the first in the fixed order direct, exact equality (no match),
  character_omission, character_addition, character_swap, homoglyph, high_similarity whose
  rule holds. The rules are read on the normalised strings: \<open>D\<close> lower-cased with its first
  \<open>.onion\<close> removed and \<open>K\<close> lower-cased (detectTyposquatting and detectHomoglyph normalise
  what they receive once more). Whenever the lower-cased \<open>K\<close> is a substring of the
  normalised \<open>D\<close>, the result is the direct match with confidence 100, whatever the later
  rules say.
\<close>

theorem C1_detect_priority_order:
  "detect lc D K =
     (let s1 = replaceOnion (lc D); k1 = lc K;
          s2 = replaceOnion (lc s1); k2 = lc k1;
          s3 = replaceOnion (lc s2); k3 = lc k2
      in if sublist k1 s1 then found K direct_match 100
         else if s2 = k2 then None
         else if spec_omission s2 k2 then found K character_omission 95
         else if spec_addition s2 k2 then found K character_addition 90
         else if spec_swap s2 k2 then found K character_swap 95
         else if spec_homoglyph s3 k3 then found K homoglyph 85
         else if spec_similarity s2 k2 > 80 then found K high_similarity (spec_similarity s2 k2)
         else None)"
  by (simp add: detect_def checkBrandSimilarity_def checkKeyword_def Let_def
        detectTyposquatting_cascade typoFound_def typoNone_def found_def)

lemma js_simps: "js [] = []" "js (c # cs) = of_char c # js cs"
  by (simp_all add: js_def)

text \<open>
  The keyword \<open>onion\<close> is a substring of the candidate \<open>abc.onion\<close>, and no match is
  returned: the containment test sees \<open>abc\<close>.
\<close>

theorem C1_counterexample:
  "sublist (js ''onion'') (js ''abc.onion'')
   \<and> detect asciiLower (js ''abc.onion'') (js ''onion'') = None"
  by code_simp

text \<open>
  \<open>googlee.onion\<close> against \<open>Google\<close>: the direct rule and the addition rule both hold, the
  result is the direct match.
\<close>

theorem C1_detect_priority_order_witness:
  "detect asciiLower (js ''googlee.onion'') (js ''Google'')
     = found (js ''Google'') direct_match 100
   \<and> spec_addition (js ''googlee'') (js ''google'')"
proof -
  have s1: "replaceOnion (asciiLower (js ''googlee.onion'')) = js ''googlee''" by code_simp
  have k1: "asciiLower (js ''Google'') = js ''google''" by code_simp
  have sub: "sublist (js ''google'') (js ''googlee'')" by code_simp
  have "js ''googlee'' = take 6 (js ''google'') @ 101 # drop 6 (js ''google'')" by code_simp
  then have add: "spec_addition (js ''googlee'') (js ''google'')"
    unfolding spec_addition_def by (intro conjI exI[of _ 6] exI[of _ 101]) (simp_all add: js_simps)
  show ?thesis
    using C1_detect_priority_order[of asciiLower "js ''googlee.onion''" "js ''Google''"] add
    by (simp add: s1 k1 sub Let_def)
qed


lemma detect_checkKeyword: "detect lc D K = checkKeyword lc (replaceOnion (lc D)) K"
  by (simp add: detect_def checkBrandSimilarity_def split: option.splits)

text \<open>
  Claim C4 (as amended). For every keyword list and candidate domain, checkBrandSimilarity
  returns the match of the first keyword, in list order, for which the detector reports a
  match, and no match when there is none. Keywords after that one are not examined.
\<close>

theorem C4_first_matching_keyword:
  "checkBrandSimilarity lc D ks =
     (case find (\<lambda>k. detect lc D k \<noteq> None) ks of
        None \<Rightarrow> None
      | Some k \<Rightarrow> detect lc D k)"
  unfolding checkBrandSimilarity_def detect_checkKeyword
  by (induction ks) (auto split: option.splits)

text \<open>
  \<open>google.onion\<close> against the keywords \<open>googel\<close>, \<open>google\<close>: the first keyword gives a
  character swap with confidence 95 and is returned; the second would give the direct
  match with confidence 100.
\<close>

theorem C4_counterexample:
  "checkBrandSimilarity asciiLower (js ''google.onion'') [js ''googel'', js ''google'']
     = found (js ''googel'') character_swap 95
   \<and> detect asciiLower (js ''google.onion'') (js ''google'')
     = found (js ''google'') direct_match 100"
  by code_simp

theorem C4_first_matching_keyword_witness:
  "checkBrandSimilarity asciiLower (js ''google.onion'') [js ''abc'', js ''google'']
     = found (js ''google'') direct_match 100"
proof -
  have "detect asciiLower (js ''google.onion'') (js ''abc'') = None" by code_simp
  moreover have "detect asciiLower (js ''google.onion'') (js ''google'')
      = found (js ''google'') direct_match 100" by code_simp
  ultimately show ?thesis
    using C4_first_matching_keyword[of asciiLower "js ''google.onion''" "[js ''abc'', js ''google'']"]
    by (simp add: found_def)
qed

text \<open>
  Claim C6 (as amended). \<open>detect("g00gle", "google")\<close> returns no match: the homoglyph rule
  substitutes one position of the keyword at a time, and the similarity is
  \<open>(6 - 2) / 6 * 100 = 200/3\<close>, not above 80. With one substitution, \<open>detect("g0ogle",
  "google")\<close> returns homoglyph with confidence 85.
\<close>

theorem C6_g00gle_no_match:
  "\<not> detectHomoglyph asciiLower (js ''g00gle'') (js ''google'')
   \<and> calculateSimilarity (js ''g00gle'') (js ''google'') = Some (200 / 3)
   \<and> detectTyposquatting asciiLower (js ''g00gle'') (js ''google'') = typoNone
   \<and> detect asciiLower (js ''g00gle'') (js ''google'') = None
   \<and> detect asciiLower (js ''g0ogle'') (js ''google'') = found (js ''google'') homoglyph 85"
  by code_simp

theorem C6_counterexample:
  "detect asciiLower (js ''g00gle'') (js ''google'') = None"
  by code_simp

section \<open>Properties of the HTML similarity functions\<close>

lemma jaccardSimilarity_sym: "jaccardSimilarity xs ys = jaccardSimilarity ys xs"
proof -
  have "{x \<in> set xs. x \<in> set ys} = {x \<in> set ys. x \<in> set xs}" by auto
  then show ?thesis by (simp add: jaccardSimilarity_def Let_def Un_commute)
qed

lemma jaccardSimilarity_empty: "jaccardSimilarity [] [] = 0"
  by (simp add: jaccardSimilarity_def)

lemma jaccardSimilarity_same_set:
  "set xs = set ys \<Longrightarrow> xs \<noteq> [] \<Longrightarrow> jaccardSimilarity xs ys = 1"
proof -
  assume eq: "set xs = set ys" and ne: "xs \<noteq> []"
  have "{x \<in> set xs. x \<in> set ys} = set xs \<union> set ys" using eq by auto
  moreover have "card (set xs \<union> set ys) \<noteq> 0" using ne by (simp add: card_eq_0_iff)
  ultimately show ?thesis by (simp add: jaccardSimilarity_def Let_def)
qed

lemma jaccardSimilarity_range: "0 \<le> jaccardSimilarity xs ys \<and> jaccardSimilarity xs ys \<le> 1"
proof -
  have le: "card {x \<in> set xs. x \<in> set ys} \<le> card (set xs \<union> set ys)"
    by (rule card_mono) auto
  show ?thesis
  proof (cases "card (set xs \<union> set ys) = 0")
    case True
    then show ?thesis unfolding jaccardSimilarity_def Let_def by (simp only: if_True) simp
  next
    case False
    then have pos: "0 < card (set xs \<union> set ys)" by (simp only: neq0_conv)
    have "jaccardSimilarity xs ys
            = of_nat (card {x \<in> set xs. x \<in> set ys}) / of_nat (card (set xs \<union> set ys))"
      unfolding jaccardSimilarity_def Let_def using False by (simp only: if_False)
    then show ?thesis using le pos by (simp add: divide_le_eq_1 del: card_eq_0_iff)
  qed
qed

lemma compareInputFields_sym: "compareInputFields i1 i2 = compareInputFields i2 i1"
  by (simp add: compareInputFields_def Let_def jaccardSimilarity_sym conj_commute)

lemma titleSimilarity_sym: "titleSimilarity t1 t2 = titleSimilarity t2 t1"
  by (auto simp: titleSimilarity_def)

text \<open>
  Claim C10. For all documents \<open>h1\<close> and \<open>h2\<close>, \<open>compareHtmlStructure(h1, h2)\<close> equals
  \<open>compareHtmlStructure(h2, h1)\<close> in every field of the returned score (overall,
  inputFields, cssClasses, ids, title), whatever fingerprints the extraction yields.
\<close>

theorem C10_compareHtmlStructure_symmetric:
  "compareHtmlStructure extract h1 h2 = compareHtmlStructure extract h2 h1"
  by (simp add: compareHtmlStructure_def Let_def compareInputFields_sym
        jaccardSimilarity_sym[of "cssClasses (extract h1)"]
        jaccardSimilarity_sym[of "ids (extract h1)"]
        titleSimilarity_sym[of "title (extract h1)"])

lemma floor_half: "\<lfloor>(1::rat) / 2\<rfloor> = 0"
  by (simp add: floor_eq_iff)

lemma Math_round_int: "Math_round (of_int n) = n"
  by (simp add: Math_round_def floor_half)

text \<open>
  Claim C7 (as amended). The title sub-score is 1.0 (reported as 100) when the two titles
  are identical strings, 0.5 (reported as 50) when they differ and either title, empty or
  not, is a substring of the other, and 0 otherwise. In particular an empty title against
  a non-empty one scores 0.5, the empty string being a substring of every string.
\<close>

theorem C7_title_score:
  "title_score (compareHtmlStructure extract h1 h2) =
     (let t1 = title (extract h1); t2 = title (extract h2)
      in if t1 = t2 then 100 else if sublist t2 t1 \<or> sublist t1 t2 then 50 else 0)
   \<and> (title (extract h1) \<noteq> [] \<and> title (extract h2) = []
        \<longrightarrow> title_score (compareHtmlStructure extract h1 h2) = 50)"
  by (auto simp: compareHtmlStructure_def Let_def titleSimilarity_def Math_round_def floor_half)

text \<open>The title \<open>Login\<close> against the empty title scores 0.5.\<close>

theorem C7_counterexample:
  "titleSimilarity (js ''Login'') [] = 1 / 2"
  by code_simp

theorem C7_title_score_witness:
  "title (id loginPage) \<noteq> [] \<and> title (id (loginPage\<lparr>title := []\<rparr>)) = []
   \<and> title_score (compareHtmlStructure id loginPage (loginPage\<lparr>title := []\<rparr>)) = 50"
  using C7_title_score[of id loginPage "loginPage\<lparr>title := []\<rparr>"]
  by (simp add: loginPage_def js_def)

lemma two_inputs_score:
  assumes "set i1 = {pwdInput, userInput}" "set i2 = {pwdInput, userInput}"
  shows "compareInputFields i1 i2 = 7 / 10"
proof -
  have ne: "i1 \<noteq> []" "i2 \<noteq> []" using assms by auto
  have t: "set (map input_type i1) = set (map input_type i2)"
    and n: "set (filter (\<lambda>n. n \<noteq> []) (map input_name i1))
              = set (filter (\<lambda>n. n \<noteq> []) (map input_name i2))"
    using assms by simp_all
  have n1: "filter (\<lambda>n. n \<noteq> []) (map input_name i1) \<noteq> []"
  proof -
    have "pwdInput \<in> set i1" using assms by simp
    then have "input_name pwdInput \<in> input_name ` set i1" by (rule imageI)
    then have "input_name pwdInput \<in> set (filter (\<lambda>n. n \<noteq> []) (map input_name i1))"
      by (simp add: pwdInput_def js_def)
    then show ?thesis by (metis empty_iff empty_set)
  qed
  have i: "filter (\<lambda>i. i \<noteq> []) (map input_id i1) = []" "filter (\<lambda>i. i \<noteq> []) (map input_id i2) = []"
    using assms by (auto simp: filter_empty_conv pwdInput_def userInput_def)
  have "jaccardSimilarity (sort (map input_type i1)) (sort (map input_type i2)) = 1"
  proof (rule jaccardSimilarity_same_set)
    show "set (sort (map input_type i1)) = set (sort (map input_type i2))" using t by simp
    have "length (sort (map input_type i1)) = length i1" by simp
    then show "sort (map input_type i1) \<noteq> []" using ne(1) by (metis length_0_conv)
  qed
  moreover have "jaccardSimilarity (filter (\<lambda>n. n \<noteq> []) (map input_name i1))
                   (filter (\<lambda>n. n \<noteq> []) (map input_name i2)) = 1"
    using n n1 by (rule jaccardSimilarity_same_set)
  ultimately show ?thesis
    using ne by (simp add: compareInputFields_def Let_def i jaccardSimilarity_empty)
qed

text \<open>
  Claim C5 (as amended). For two documents whose inputs are exactly
  \<open>{type: password, name: pwd}\<close> and \<open>{type: email, name: user}\<close> and whose titles are
  identical, compareHtmlStructure returns \<open>overall \<le> 88\<close>, whatever classes and ids the
  documents have, and \<open>overall = 38\<close> when they have no class tokens and no element ids:
  the inputs carry no id, and the Jaccard index of two empty id lists is 0.
\<close>

theorem C5_two_inputs_overall:
  assumes "set (inputFields (extract h1)) = {pwdInput, userInput}"
    and "set (inputFields (extract h2)) = {pwdInput, userInput}"
    and "title (extract h1) = title (extract h2)"
  shows "overall (compareHtmlStructure extract h1 h2) \<le> 88
    \<and> (cssClasses (extract h1) = [] \<and> cssClasses (extract h2) = []
         \<and> ids (extract h1) = [] \<and> ids (extract h2) = []
         \<longrightarrow> overall (compareHtmlStructure extract h1 h2) = 38)"
proof -
  let ?c = "jaccardSimilarity (cssClasses (extract h1)) (cssClasses (extract h2))"
  let ?d = "jaccardSimilarity (ids (extract h1)) (ids (extract h2))"
  have inp: "compareInputFields (inputFields (extract h1)) (inputFields (extract h2)) = 7 / 10"
    using assms(1,2) by (rule two_inputs_score)
  have ar: "(7 / 10 * (4 / 10) + ?c * (3 / 10) + ?d * (2 / 10) + 1 * (1 / 10)) * 100
          = 38 + 30 * ?c + 20 * ?d"
    by (simp add: algebra_simps)
  have "overall (compareHtmlStructure extract h1 h2)
          = Math_round ((7 / 10 * (4 / 10) + ?c * (3 / 10) + ?d * (2 / 10) + 1 * (1 / 10)) * 100)"
    by (simp add: compareHtmlStructure_def Let_def inp titleSimilarity_def assms(3))
  then have eq: "overall (compareHtmlStructure extract h1 h2) = Math_round (38 + 30 * ?c + 20 * ?d)"
    by (simp only: ar)
  have "38 + 30 * ?c + 20 * ?d \<le> 88"
    using jaccardSimilarity_range[of "cssClasses (extract h1)" "cssClasses (extract h2)"]
      jaccardSimilarity_range[of "ids (extract h1)" "ids (extract h2)"] by simp
  then have "Math_round (38 + 30 * ?c + 20 * ?d) \<le> Math_round 88"
    unfolding Math_round_def by (intro floor_mono) simp
  also have "Math_round 88 = 88" using Math_round_int[of 88] by simp
  finally have le: "overall (compareHtmlStructure extract h1 h2) \<le> 88" using eq by simp
  have "overall (compareHtmlStructure extract h1 h2) = 38"
    if "cssClasses (extract h1) = [] \<and> cssClasses (extract h2) = []
         \<and> ids (extract h1) = [] \<and> ids (extract h2) = []"
    using that eq Math_round_int[of 38] by (simp add: jaccardSimilarity_empty)
  with le show ?thesis by blast
qed

text \<open>
  The page with the two inputs, the title \<open>Login\<close> and nothing else, compared with itself:
  the overall score is 38, not 100.
\<close>

theorem C5_counterexample:
  "overall (compareHtmlStructure id loginPage loginPage) \<noteq> 100"
  by code_simp

theorem C5_two_inputs_overall_witness:
  "set (inputFields (id loginPage)) = {pwdInput, userInput}
   \<and> title (id loginPage) = title (id loginPage)
   \<and> cssClasses (id loginPage) = [] \<and> ids (id loginPage) = []
   \<and> overall (compareHtmlStructure id loginPage loginPage) = 38"
  using C5_two_inputs_overall[of id loginPage loginPage]
  by (simp add: loginPage_def)

section \<open>Properties of the analysis pipeline\<close>

lemma snd_crawl: "snd (crawl env sr p realSite opts f fetched) = fetched @ [sr_url sr]"
  by (simp add: crawl_def Let_def split: outcome.splits)

lemma indicators_push: "indicators (push i pts f) = indicators f @ [i]"
  by (simp add: push_def)

text \<open>
  Claim C3 (as amended). For every candidate that analyzeSearchResult analyses, the page is
  requested if and only if the confidence of the match that checkBrandSimilarity returns
  (the match of the first matching keyword) is at least \<open>similarityThreshold\<close>, or the
  structural check is enabled and a downloaded, non-empty reference page is at hand. When
  the gate stays closed, a finding that is returned has \<open>was_crawled = false\<close>, carries the
  skip reason and no extracted data, and its indicators are at most the
  \<open>domain_similarity\<close> and \<open>keyword_in_metadata\<close> indicators of metadata scoring.
\<close>

theorem C3_crawl_gate:
  "(let gate = ((case checkBrandSimilarity (toLowerCase env) (sr_url sr) (profile_keywords p) of
                   Some m \<Rightarrow> similarityThreshold opts \<le> confidence m
                 | None \<Rightarrow> False)
                \<or> (checkSimilarity opts \<and> truthy realSite));
        run = analyzeSearchResult env sr p realSite opts fetched
    in snd run = (if gate then fetched @ [sr_url sr] else fetched)
       \<and> (\<not> gate \<longrightarrow>
            (\<forall>f. fst run = Some f \<longrightarrow>
               was_crawled f = Some False \<and> crawl_reason f = Some skipReason
               \<and> extracted_data f = None
               \<and> list_all isMetadataIndicator (indicators f)
               \<and> length (indicators f) \<le> 2)))"
proof -
  let ?dc = "checkBrandSimilarity (toLowerCase env) (sr_url sr) (profile_keywords p)"
  let ?gate = "(case ?dc of Some m \<Rightarrow> similarityThreshold opts \<le> confidence m | None \<Rightarrow> False)
                \<or> (checkSimilarity opts \<and> truthy realSite)"
  show ?thesis
  proof (cases ?gate)
    case True
    then show ?thesis
      unfolding analyzeSearchResult_def Let_def
      by (simp add: split_beta snd_crawl)
  next
    case False
    then show ?thesis
      unfolding analyzeSearchResult_def Let_def
      by (auto simp: split_beta indicators_push push_def split: option.splits if_splits)
  qed
qed


text \<open>
  \<open>http://c1tibank.onion\<close> with the keywords \<open>citibank\<close>, \<open>bank\<close>, threshold 90 and no
  reference page: the best confidence over the keywords is 100 (\<open>bank\<close> is contained),
  the returned match is the homoglyph match of \<open>citibank\<close> with confidence 85, and
  nothing is requested.
\<close>

theorem C3_counterexample:
  "bestConfidence asciiLower (sr_url citiCandidate) (profile_keywords citiProfile) = Some 100
   \<and> similarityThreshold strictOptions = 90
   \<and> snd (analyzeSearchResult offline citiCandidate citiProfile None strictOptions []) = []"
  by code_simp

text \<open>The same candidate: skipped at threshold 90, requested at the default threshold 70.\<close>

theorem C3_crawl_gate_witness:
  "(\<exists>f. fst (analyzeSearchResult offline citiCandidate citiProfile None strictOptions []) = Some f
        \<and> was_crawled f = Some False \<and> crawl_reason f = Some skipReason
        \<and> list_all isMetadataIndicator (indicators f))
   \<and> snd (analyzeSearchResult offline citiCandidate citiProfile None strictOptions []) = []
   \<and> snd (analyzeSearchResult offline citiCandidate citiProfile None defaultOptions [])
       = [sr_url citiCandidate]"
proof -
  have dc: "checkBrandSimilarity (toLowerCase offline) (sr_url citiCandidate)
              (profile_keywords citiProfile) = found (js ''citibank'') homoglyph 85"
    by code_simp
  have ex: "fst (analyzeSearchResult offline citiCandidate citiProfile None strictOptions [])
              \<noteq> None"
    by code_simp
  have strict: "similarityThreshold strictOptions = 90" "checkSimilarity strictOptions"
    and dflt: "similarityThreshold defaultOptions = 70"
    by (simp_all add: strictOptions_def defaultOptions_def)
  show ?thesis
    using C3_crawl_gate[where env = offline and sr = citiCandidate and p = citiProfile
            and opts = strictOptions and realSite = None and fetched = "[]"]
      C3_crawl_gate[where env = offline and sr = citiCandidate and p = citiProfile
            and opts = defaultOptions and realSite = None and fetched = "[]"] ex
    by (auto simp: Let_def dc found_def strict dflt)
qed

section \<open>Properties of the multi-engine search\<close>

text \<open>
  The loop of parseSearchResults, started on a set \<open>seen0\<close>: the results have distinct
  URLs, none of them in \<open>seen0\<close>, and the set is \<open>seen0\<close> plus the URLs of the results.
\<close>

lemma parseEach_inv:
  assumes "parseEach name maxR elems (rs, seen) = (rs', seen')"
    and "distinct (map sr_url rs)" "urlsOf rs \<inter> seen0 = {}" "seen = seen0 \<union> urlsOf rs"
  shows "distinct (map sr_url rs') \<and> urlsOf rs' \<inter> seen0 = {} \<and> seen' = seen0 \<union> urlsOf rs'"
  using assms
proof (induction elems arbitrary: rs seen)
  case Nil
  from Nil(1) have "rs' = rs" "seen' = seen" by simp_all
  with Nil(2-4) show ?case by blast
next
  case (Cons elem elems)
  show ?case
  proof (cases "int (length rs) \<ge> maxR")
    case True
    with Cons.prems(1) have "rs' = rs" "seen' = seen" by simp_all
    with Cons.prems(2-4) show ?thesis by blast
  next
    case False
    show ?thesis
    proof (cases "truthy (href elem) \<and> sublist dotOnion (the (href elem))
                  \<and> normalizeOnionUrl (the (href elem)) \<notin> seen")
      case True
      let ?u = "normalizeOnionUrl (the (href elem))"
      let ?r = "\<lparr>sr_title = (if anchor_text elem \<noteq> [] then anchor_text elem else ?u),
                 sr_url = ?u, sr_description = anchor_description elem, source_engine = name\<rparr>"
      from True False Cons.prems(1)
      have run: "parseEach name maxR elems (rs @ [?r], insert ?u seen) = (rs', seen')"
        by (simp add: Let_def)
      have new: "?u \<notin> urlsOf rs" "?u \<notin> seen0" using True Cons.prems by auto
      have "distinct (map sr_url (rs @ [?r]))"
        using new Cons.prems(2) by (simp add: urlsOf_def)
      moreover have "urlsOf (rs @ [?r]) \<inter> seen0 = {}"
        using new Cons.prems(3) by (simp add: urlsOf_def)
      moreover have "insert ?u seen = seen0 \<union> urlsOf (rs @ [?r])"
        using Cons.prems(4) by (simp add: urlsOf_def)
      ultimately show ?thesis by (rule Cons.IH[OF run])
    next
      case skip: False
      from skip False Cons.prems(1)
      have run: "parseEach name maxR elems (rs, seen) = (rs', seen')"
        by (auto simp: Let_def split: if_splits)
      show ?thesis using Cons.prems(2-4) by (rule Cons.IH[OF run])
    qed
  qed
qed

text \<open>
  What the loop of parseSearchResults records: under the name of the engine, in document
  order and up to \<open>maxResults\<close>, the listed URLs that are not in the set, each once.
\<close>

lemma removeAll_filter_not_in:
  "removeAll u (filter (\<lambda>x. x \<notin> S) xs) = filter (\<lambda>x. x \<notin> insert u S) xs"
  by (induction xs) auto

lemma parseEach_records:
  "parseEach name maxR elems (rs, seen) = (rs', seen') \<Longrightarrow>
   attribution rs' = attribution rs
      @ map (\<lambda>u. (u, name))
          (take (nat maxR - length rs) (firsts (filter (\<lambda>u. u \<notin> seen) (onionTargets elems))))"
proof (induction elems arbitrary: rs seen)
  case Nil
  then show ?case by (simp add: onionTargets_def)
next
  case (Cons elem elems)
  show ?case
  proof (cases "int (length rs) \<ge> maxR")
    case True
    then have "nat maxR - length rs = 0" by simp
    moreover from True Cons.prems have "rs' = rs" by simp
    ultimately show ?thesis by simp
  next
    case False
    then have pos: "nat maxR - length rs = Suc (nat maxR - Suc (length rs))" by simp
    show ?thesis
    proof (cases "truthy (href elem) \<and> sublist dotOnion (the (href elem))")
      case notarget: False
      with False Cons.prems
      have run: "parseEach name maxR elems (rs, seen) = (rs', seen')" by (auto split: if_splits)
      have "onionTargets (elem # elems) = onionTargets elems"
        using notarget by (auto simp: onionTargets_def)
      then show ?thesis using Cons.IH[OF run] by simp
    next
      case True
      let ?u = "normalizeOnionUrl (the (href elem))"
      have t: "onionTargets (elem # elems) = ?u # onionTargets elems"
        using True by (simp add: onionTargets_def)
      show ?thesis
      proof (cases "?u \<in> seen")
        case seen: True
        with True False Cons.prems
        have run: "parseEach name maxR elems (rs, seen) = (rs', seen')" by (simp add: Let_def)
        show ?thesis using Cons.IH[OF run] seen by (simp add: t)
      next
        case new: False
        let ?r = "\<lparr>sr_title = (if anchor_text elem \<noteq> [] then anchor_text elem else ?u),
                   sr_url = ?u, sr_description = anchor_description elem, source_engine = name\<rparr>"
        from new True False Cons.prems
        have run: "parseEach name maxR elems (rs @ [?r], insert ?u seen) = (rs', seen')"
          by (simp add: Let_def)
        show ?thesis
          using Cons.IH[OF run] new
          by (simp add: t pos removeAll_filter_not_in attribution_def)
      qed
    qed
  qed
qed

text \<open>searchAhmia's loop: the same when it returns; the set only grows when it throws.\<close>

lemma ahmiaEach_inv:
  assumes "ahmiaEach env maxR elems (rs, seen) = (res, seen')"
    and "distinct (map sr_url rs)" "urlsOf rs \<inter> seen0 = {}" "seen = seen0 \<union> urlsOf rs"
  shows "seen0 \<subseteq> seen' \<and>
         (\<forall>rs'. res = Returns rs' \<longrightarrow>
            distinct (map sr_url rs') \<and> urlsOf rs' \<inter> seen0 = {} \<and> seen' = seen0 \<union> urlsOf rs')"
  using assms
proof (induction elems arbitrary: rs seen)
  case Nil
  from Nil(1) have "res = Returns rs" "seen' = seen" by simp_all
  with Nil(2-4) show ?case by blast
next
  case (Cons elem elems)
  show ?case
  proof (cases "int (length rs) \<ge> maxR")
    case True
    with Cons.prems(1) have "res = Returns rs" "seen' = seen" by simp_all
    with Cons.prems(2-4) show ?thesis by blast
  next
    case False
    show ?thesis
    proof (cases "truthy (href elem)")
      case nohref: False
      from nohref False Cons.prems(1)
      have run: "ahmiaEach env maxR elems (rs, seen) = (res, seen')" by simp
      show ?thesis using Cons.prems(2-4) by (rule Cons.IH[OF run])
    next
      case True
      show ?thesis
      proof (cases "ahmiaTarget env (the (href elem))")
        case (Throws msg)
        with True False Cons.prems(1) have "res = Throws msg" "seen' = seen" by simp_all
        with Cons.prems(2-4) show ?thesis by blast
      next
        case (Returns url)
        show ?thesis
        proof (cases "truthy url \<and> sublist dotOnion (the url)
                      \<and> normalizeOnionUrl (the url) \<notin> seen")
          case new: True
          let ?u = "normalizeOnionUrl (the url)"
          let ?r = "\<lparr>sr_title = (if anchor_text elem \<noteq> [] then anchor_text elem else ?u),
                     sr_url = ?u, sr_description = anchor_description elem,
                     source_engine = js ''ahmia''\<rparr>"
          from new Returns True False Cons.prems(1)
          have run: "ahmiaEach env maxR elems (rs @ [?r], insert ?u seen) = (res, seen')"
            by (simp add: Let_def)
          have fresh: "?u \<notin> urlsOf rs" "?u \<notin> seen0" using new Cons.prems by auto
          have "distinct (map sr_url (rs @ [?r]))"
            using fresh Cons.prems(2) by (simp add: urlsOf_def)
          moreover have "urlsOf (rs @ [?r]) \<inter> seen0 = {}"
            using fresh Cons.prems(3) by (simp add: urlsOf_def)
          moreover have "insert ?u seen = seen0 \<union> urlsOf (rs @ [?r])"
            using Cons.prems(4) by (simp add: urlsOf_def)
          ultimately show ?thesis by (rule Cons.IH[OF run])
        next
          case skip: False
          from skip Returns True False Cons.prems(1)
          have run: "ahmiaEach env maxR elems (rs, seen) = (res, seen')"
            by (auto simp: Let_def split: if_splits)
          show ?thesis using Cons.prems(2-4) by (rule Cons.IH[OF run])
        qed
      qed
    qed
  qed
qed

text \<open>
  A search task: its results have distinct URLs, none of them in the set it found; the
  set it leaves contains the set it found, and is that set plus the URLs of its results
  when the task did not fail.
\<close>

lemma searchAhmia_inv:
  assumes "searchAhmia env base q maxR seen = (v, seen')"
  shows "distinct (map sr_url (engine_results v)) \<and> urlsOf (engine_results v) \<inter> seen = {}
         \<and> seen \<subseteq> seen' \<and> urlsOf (engine_results v) \<subseteq> seen'
         \<and> (engine_error v = None \<longrightarrow> seen' = seen \<union> urlsOf (engine_results v))"
proof (cases "\<exists>home page pn pv. axiosGet env (template base @ js ''/'') = Returns home
          \<and> cheerioHiddenInput env home = (pn, pv) \<and> truthy pn \<and> truthy pv
          \<and> axiosGet env (template base @ js ''/search/?q='' @ encodeURIComponent env q
                @ js ''&'' @ the pn @ js ''='' @ the pv) = Returns page")
  case False
  then have "\<exists>msg. v = failed (js ''ahmia'') msg" and "seen' = seen"
    using assms by (auto simp: searchAhmia_def Let_def split: outcome.splits prod.splits if_splits)
  then show ?thesis by (auto simp: failed_def urlsOf_def)
next
  case True
  then obtain home page pn pv where h: "axiosGet env (template base @ js ''/'') = Returns home"
    "cheerioHiddenInput env home = (pn, pv)" "truthy pn" "truthy pv"
    "axiosGet env (template base @ js ''/search/?q='' @ encodeURIComponent env q
                @ js ''&'' @ the pn @ js ''='' @ the pv) = Returns page" by blast
  obtain res s where loop: "ahmiaEach env maxR (cheerioSelect env (js ''li.result a'') page) ([], seen)
      = (res, s)" by (cases "ahmiaEach env maxR (cheerioSelect env (js ''li.result a'') page) ([], seen)")
  have inv: "seen \<subseteq> s \<and> (\<forall>rs'. res = Returns rs' \<longrightarrow>
            distinct (map sr_url rs') \<and> urlsOf rs' \<inter> seen = {} \<and> s = seen \<union> urlsOf rs')"
    by (rule ahmiaEach_inv[OF loop]) (simp_all add: urlsOf_def)
  show ?thesis
  proof (cases res)
    case (Throws msg)
    then have "v = failed (js ''ahmia'') msg" "seen' = s"
      using assms h loop by (simp_all add: searchAhmia_def Let_def)
    then show ?thesis using inv by (auto simp: failed_def urlsOf_def)
  next
    case (Returns rs')
    then have "v = succeeded (js ''ahmia'') rs'" "seen' = s"
      using assms h loop by (simp_all add: searchAhmia_def Let_def)
    then show ?thesis using inv Returns by (auto simp: succeeded_def)
  qed
qed

lemma searchEngine_inv:
  assumes "searchEngine env name q maxR seen = (v, seen')"
  shows "distinct (map sr_url (engine_results v)) \<and> urlsOf (engine_results v) \<inter> seen = {}
         \<and> seen \<subseteq> seen' \<and> urlsOf (engine_results v) \<subseteq> seen'
         \<and> (engine_error v = None \<longrightarrow> seen' = seen \<union> urlsOf (engine_results v))"
proof (cases "name = js ''ahmia''")
  case True
  then show ?thesis using assms searchAhmia_inv by (simp add: searchEngine_def Let_def)
next
  case False
  show ?thesis
  proof (cases "buildSearchUrl env name (map_of TOP_SEARCH_ENGINES name) q")
    case None
    then have "v = failed name (js ''url.includes is not a function'')" "seen' = seen"
      using assms False by (simp_all add: searchEngine_def Let_def)
    then show ?thesis by (auto simp: failed_def urlsOf_def)
  next
    case (Some url)
    show ?thesis
    proof (cases "fetchUrl env url")
      case (Throws msg)
      then have "v = failed name msg" "seen' = seen"
        using assms False Some by (simp_all add: searchEngine_def Let_def)
      then show ?thesis by (auto simp: failed_def urlsOf_def)
    next
      case (Returns html)
      obtain rs s where p: "parseSearchResults env name html maxR seen = (rs, s)"
        by (cases "parseSearchResults env name html maxR seen")
      then have v: "v = succeeded name rs" "seen' = s"
        using assms False Some Returns by (simp_all add: searchEngine_def Let_def)
      from p have "distinct (map sr_url rs) \<and> urlsOf rs \<inter> seen = {} \<and> s = seen \<union> urlsOf rs"
        unfolding parseSearchResults_def Let_def
        by (rule parseEach_inv) (simp_all add: urlsOf_def)
      then show ?thesis using v by (auto simp: succeeded_def)
    qed
  qed
qed

subsection \<open>The run of all tasks\<close>

lemma seenAfter_snoc:
  "seenAfter env q maxR names (ts @ [i])
     = snd (searchEngine env (names ! i) q maxR (seenAfter env q maxR names ts))"
  by (simp add: seenAfter_def)

lemma seenAfter_mono: "seenAfter env q maxR names ts \<subseteq> seenAfter env q maxR names (ts @ ts')"
proof (induction ts' rule: rev_induct)
  case Nil
  then show ?case by simp
next
  case (snoc i ts')
  have "seenAfter env q maxR names (ts @ ts')
          \<subseteq> snd (searchEngine env (names ! i) q maxR (seenAfter env q maxR names (ts @ ts')))"
    using searchEngine_inv[of env "names ! i" q maxR "seenAfter env q maxR names (ts @ ts')"]
    by (metis prod.collapse)
  with snoc show ?case
    using seenAfter_snoc[of env q maxR names "ts @ ts'" i] by (simp add: append_assoc[symmetric] del: append_assoc)
qed

lemma before_split:
  "i \<in> set (before order j) \<Longrightarrow> \<exists>rest. before order j = before order i @ i # rest"
  unfolding before_def
proof (induction order)
  case Nil
  then show ?case by simp
next
  case (Cons x xs)
  then show ?case by (cases "x = j"; cases "x = i") auto
qed

lemma before_total:
  "i \<in> set order \<Longrightarrow> j \<in> set order \<Longrightarrow> i \<noteq> j
   \<Longrightarrow> i \<in> set (before order j) \<or> j \<in> set (before order i)"
  unfolding before_def by (induction order) auto

text \<open>What task \<open>i\<close> records, against the set it finds and the set it leaves.\<close>

lemma taskValue_inv:
  defines "S \<equiv> \<lambda>env q maxR names order i. seenAfter env q maxR names (before order i)"
  shows "distinct (map sr_url (engine_results (taskValue env q maxR names order i)))
     \<and> urlsOf (engine_results (taskValue env q maxR names order i)) \<inter> S env q maxR names order i = {}
     \<and> S env q maxR names order i \<subseteq> seenAfter env q maxR names (before order i @ [i])
     \<and> urlsOf (engine_results (taskValue env q maxR names order i))
           \<subseteq> seenAfter env q maxR names (before order i @ [i])
     \<and> (engine_error (taskValue env q maxR names order i) = None \<longrightarrow>
           seenAfter env q maxR names (before order i @ [i])
             = S env q maxR names order i \<union> urlsOf (engine_results (taskValue env q maxR names order i)))"
  unfolding S_def taskValue_def seenAfter_snoc
  by (rule searchEngine_inv) simp

lemma earlier_task_disjoint:
  assumes "i \<in> set (before order j)"
  shows "urlsOf (engine_results (taskValue env q maxR names order i))
           \<subseteq> seenAfter env q maxR names (before order j)"
    and "urlsOf (engine_results (taskValue env q maxR names order i))
           \<inter> urlsOf (engine_results (taskValue env q maxR names order j)) = {}"
proof -
  from before_split[OF assms] obtain rest where r: "before order j = (before order i @ [i]) @ rest"
    by auto
  have "urlsOf (engine_results (taskValue env q maxR names order i))
          \<subseteq> seenAfter env q maxR names (before order i @ [i])"
    using taskValue_inv[of env q maxR names order i] by blast
  also have "\<dots> \<subseteq> seenAfter env q maxR names (before order j)"
    unfolding r by (rule seenAfter_mono)
  finally show sub: "urlsOf (engine_results (taskValue env q maxR names order i))
           \<subseteq> seenAfter env q maxR names (before order j)" .
  show "urlsOf (engine_results (taskValue env q maxR names order i))
           \<inter> urlsOf (engine_results (taskValue env q maxR names order j)) = {}"
    using sub taskValue_inv[of env q maxR names order j] by blast
qed

lemma set_arrivalOrder: "set (arrivalOrder arrival n) = {0..<n}"
  by (simp add: arrivalOrder_def)

lemma tasks_disjoint:
  assumes "i < n" "j < n" "i \<noteq> j"
  shows "urlsOf (engine_results (taskValue env q maxR names (arrivalOrder arrival n) i))
           \<inter> urlsOf (engine_results (taskValue env q maxR names (arrivalOrder arrival n) j)) = {}"
proof -
  let ?o = "arrivalOrder arrival n"
  have "i \<in> set ?o" "j \<in> set ?o" using assms by (simp_all add: set_arrivalOrder)
  then consider "i \<in> set (before ?o j)" | "j \<in> set (before ?o i)"
    using before_total assms(3) by blast
  then show ?thesis
    using earlier_task_disjoint(2)[of i ?o j env q maxR names]
      earlier_task_disjoint(2)[of j ?o i env q maxR names] by cases blast+
qed

lemma distinct_concat_upto:
  assumes "\<And>i. i < n \<Longrightarrow> distinct (map sr_url (R i))"
    and "\<And>i j. i < n \<Longrightarrow> j < n \<Longrightarrow> i \<noteq> j \<Longrightarrow> urlsOf (R i) \<inter> urlsOf (R j) = {}"
  shows "distinct (map sr_url (concat (map R [0..<n])))"
  using assms
proof (induction n)
  case 0
  then show ?case by simp
next
  case (Suc n)
  have "distinct (map sr_url (concat (map R [0..<n])))"
    by (rule Suc.IH) (use Suc.prems in auto)
  moreover have "distinct (map sr_url (R n))" using Suc.prems(1) by simp
  moreover have "urlsOf (concat (map R [0..<n])) \<inter> urlsOf (R n) = {}"
  proof -
    have d: "x \<notin> urlsOf (R n)" if "i < n" "x \<in> urlsOf (R i)" for i x
      using Suc.prems(2)[of i n] that by auto
    have "urlsOf (concat (map R [0..<n])) = (\<Union>i\<in>{0..<n}. urlsOf (R i))"
      by (auto simp: urlsOf_def)
    then show ?thesis using d by fastforce
  qed
  ultimately show ?case by (simp add: urlsOf_def)
qed

text \<open>The loop over the settled tasks: every task is fulfilled and its array is truthy.\<close>

lemma collect_fulfilled:
  "collect (name, fulfilled v) out = out\<lparr>results := results out @ engine_results v\<rparr>"
  by (simp add: collect_def truthy_array_def)

lemma fold_collect:
  "length names = length vs \<Longrightarrow>
   results (fold collect (zip names (map fulfilled vs)) out)
     = results out @ concat (map engine_results vs)
   \<and> errors (fold collect (zip names (map fulfilled vs)) out) = errors out
   \<and> engines_used (fold collect (zip names (map fulfilled vs)) out) = engines_used out
   \<and> total_engines (fold collect (zip names (map fulfilled vs)) out) = total_engines out"
proof (induction names vs arbitrary: out rule: list_induct2)
  case Nil
  then show ?case by simp
next
  case (Cons n ns v vs)
  show ?case by (simp add: Cons.IH collect_fulfilled)
qed

lemma multiEngineSearch_results:
  "results (multiEngineSearch env arrival q engines opts)
     = concat (map (\<lambda>i. engine_results
                 (taskValue env q (maxResultsPerEngine opts)
                    (engines_used (multiEngineSearch env arrival q engines opts))
                    (arrivalOrder arrival (total_engines (multiEngineSearch env arrival q engines opts))) i))
               [0..<total_engines (multiEngineSearch env arrival q engines opts)])"
  and multiEngineSearch_errors: "errors (multiEngineSearch env arrival q engines opts) = []"
  and multiEngineSearch_total: "total_engines (multiEngineSearch env arrival q engines opts)
     = length (engines_used (multiEngineSearch env arrival q engines opts))"
proof -
  define names where "names = (case engines of
               Some es \<Rightarrow> filter (\<lambda>e. engineListed (toLowerCase env e)) es
             | None \<Rightarrow> map fst TOP_SEARCH_ENGINES)"
  define vs where "vs = map (taskValue env q (maxResultsPerEngine opts) names
                     (arrivalOrder arrival (length names))) [0..<length names]"
  have len: "length names = length vs" by (simp add: vs_def)
  have m: "map (\<lambda>i. fulfilled (taskValue env q (maxResultsPerEngine opts) names
                     (arrivalOrder arrival (length names)) i)) [0..<length names] = map fulfilled vs"
    by (simp add: vs_def)
  have used: "engines_used (multiEngineSearch env arrival q engines opts) = names"
    and tot: "total_engines (multiEngineSearch env arrival q engines opts) = length names"
    unfolding multiEngineSearch_def Let_def names_def[symmetric] m
    using fold_collect[OF len] by simp_all
  show "results (multiEngineSearch env arrival q engines opts)
     = concat (map (\<lambda>i. engine_results
                 (taskValue env q (maxResultsPerEngine opts)
                    (engines_used (multiEngineSearch env arrival q engines opts))
                    (arrivalOrder arrival (total_engines (multiEngineSearch env arrival q engines opts))) i))
               [0..<total_engines (multiEngineSearch env arrival q engines opts)])"
    unfolding used tot
    unfolding multiEngineSearch_def Let_def names_def[symmetric] m
    using fold_collect[OF len] by (simp add: vs_def comp_def)
  show "errors (multiEngineSearch env arrival q engines opts) = []"
    unfolding multiEngineSearch_def Let_def names_def[symmetric] m
    using fold_collect[OF len] by simp
  show "total_engines (multiEngineSearch env arrival q engines opts)
     = length (engines_used (multiEngineSearch env arrival q engines opts))"
    by (simp add: used tot)
qed


lemma earlier_left_subset:
  assumes "j \<in> set (before order i)"
  shows "seenAfter env q maxR names (before order j @ [j])
           \<subseteq> seenAfter env q maxR names (before order i)"
proof -
  from before_split[OF assms] obtain rest where "before order i = (before order j @ [j]) @ rest"
    by auto
  then show ?thesis using seenAfter_mono by metis
qed

text \<open>
  For every run of the aggregator, whatever the answers of the backends and the order in
  which they arrive: the aggregated list is the concatenation of the results of the
  tasks, and no normalised URL appears in it twice. A task records only URLs that are not
  in the shared set when its answer is handled; the set it leaves contains the set it
  found and the URLs it recorded, and is contained in the set every task handled later
  finds.
\<close>

lemma aggregated_urls_distinct:
  "(let out = multiEngineSearch env arrival q engines opts;
        names = engines_used out; n = length names; maxR = maxResultsPerEngine opts;
        order = arrivalOrder arrival n;
        task = (\<lambda>i. engine_results (taskValue env q maxR names order i));
        seenBefore = (\<lambda>i. seenAfter env q maxR names (before order i));
        seenLeft = (\<lambda>i. seenAfter env q maxR names (before order i @ [i]))
    in results out = concat (map task [0..<n])
       \<and> distinct (map sr_url (results out))
       \<and> (\<forall>i<n. urlsOf (task i) \<inter> seenBefore i = {}
                  \<and> seenBefore i \<union> urlsOf (task i) \<subseteq> seenLeft i
                  \<and> (\<forall>j\<in>set (before order i). seenLeft j \<subseteq> seenBefore i)))"
proof -
  let ?out = "multiEngineSearch env arrival q engines opts"
  let ?names = "engines_used ?out" and ?maxR = "maxResultsPerEngine opts"
  let ?n = "length ?names"
  let ?order = "arrivalOrder arrival ?n"
  let ?task = "\<lambda>i. engine_results (taskValue env q ?maxR ?names ?order i)"
  have res: "results ?out = concat (map ?task [0..<?n])"
    using multiEngineSearch_results[of env arrival q engines opts]
    by (simp only: multiEngineSearch_total)
  have "distinct (map sr_url (concat (map ?task [0..<?n])))"
  proof (rule distinct_concat_upto)
    show "distinct (map sr_url (?task i))" for i
      using taskValue_inv[of env q ?maxR ?names ?order i] by blast
    show "urlsOf (?task i) \<inter> urlsOf (?task j) = {}" if "i < ?n" "j < ?n" "i \<noteq> j" for i j
      using that by (rule tasks_disjoint)
  qed
  then have dist: "distinct (map sr_url (results ?out))" by (simp only: res)
  have per: "urlsOf (?task i) \<inter> seenAfter env q ?maxR ?names (before ?order i) = {}
        \<and> seenAfter env q ?maxR ?names (before ?order i) \<union> urlsOf (?task i)
              \<subseteq> seenAfter env q ?maxR ?names (before ?order i @ [i])
        \<and> (\<forall>j\<in>set (before ?order i).
              seenAfter env q ?maxR ?names (before ?order j @ [j])
                \<subseteq> seenAfter env q ?maxR ?names (before ?order i))" for i
    using taskValue_inv[of env q ?maxR ?names ?order i] earlier_left_subset[of _ ?order i]
    by blast
  show ?thesis unfolding Let_def using res dist per by blast
qed

text \<open>
  torch and haystak both list \<open>abc.onion\<close>: it appears once, under torch when the answer
  of torch arrives first and under haystak when the answer of haystak does.
\<close>

lemma first_arrival_wins_on_standard_backends:
  "distinct (map sr_url (results
      (multiEngineSearch mirrors id (js ''acme'') torchAndHaystak defaultSearchOptions)))
   \<and> map (\<lambda>r. (sr_url r, source_engine r))
         (results (multiEngineSearch mirrors id (js ''acme'') torchAndHaystak defaultSearchOptions))
       = [(js ''http://abc.onion'', js ''torch''), (js ''http://torchonly.onion'', js ''torch''),
          (js ''http://hayonly.onion'', js ''haystak'')]
   \<and> map (\<lambda>r. (sr_url r, source_engine r))
         (results (multiEngineSearch mirrors (\<lambda>i. 1 - i) (js ''acme'') torchAndHaystak
                     defaultSearchOptions))
       = [(js ''http://torchonly.onion'', js ''torch''), (js ''http://abc.onion'', js ''haystak''),
          (js ''http://hayonly.onion'', js ''haystak'')]"
proof -
  have d: "distinct (map sr_url (results
      (multiEngineSearch mirrors id (js ''acme'') torchAndHaystak defaultSearchOptions)))"
    using aggregated_urls_distinct[of mirrors id "js ''acme''" torchAndHaystak defaultSearchOptions]
    unfolding Let_def by (elim conjE)
  have a: "map (\<lambda>r. (sr_url r, source_engine r))
         (results (multiEngineSearch mirrors id (js ''acme'') torchAndHaystak defaultSearchOptions))
       = [(js ''http://abc.onion'', js ''torch''), (js ''http://torchonly.onion'', js ''torch''),
          (js ''http://hayonly.onion'', js ''haystak'')]"
    by code_simp
  have b: "map (\<lambda>r. (sr_url r, source_engine r))
         (results (multiEngineSearch mirrors (\<lambda>i. 1 - i) (js ''acme'') torchAndHaystak
                     defaultSearchOptions))
       = [(js ''http://torchonly.onion'', js ''torch''), (js ''http://abc.onion'', js ''haystak''),
          (js ''http://hayonly.onion'', js ''haystak'')]"
    by code_simp
  from d a b show ?thesis by blast
qed

text \<open>
  Claim C8. Each normalised URL is to appear in the aggregated list once, under the
  backend whose result is handled first, also when two backends report it. The loops pair
  \<open>seenUrls.add\<close> with \<open>results.push\<close>, and for the standard backends that is what happens.
  In searchAhmia the pair sits in a loop that can throw after it has added URLs: the
  \<open>catch\<close> returns \<open>results: []\<close> and the URLs stay in the set. Here Ahmia and torch both
  list \<open>http://abc.onion\<close>, and Ahmia's next link makes \<open>decodeURIComponent\<close> throw. When
  the answer of Ahmia is handled first, the URL is in the set and in no result: it appears
  under no backend. When the answer of torch is handled first, it appears under torch.
\<close>

theorem C8_url_lost_when_ahmia_throws:
  "fst (searchEngine lossy (js ''ahmia'') (js ''acme'') 20 {})
     = failed (js ''ahmia'') (js ''URI malformed'')
   \<and> snd (searchEngine lossy (js ''ahmia'') (js ''acme'') 20 {}) = {js ''http://abc.onion''}
   \<and> attribution (results
         (multiEngineSearch lossy id (js ''acme'') ahmiaAndTorch defaultSearchOptions))
       = [(js ''http://torchonly.onion'', js ''torch'')]
   \<and> attribution (results
         (multiEngineSearch lossy secondFirst (js ''acme'') ahmiaAndTorch defaultSearchOptions))
       = [(js ''http://abc.onion'', js ''torch''), (js ''http://torchonly.onion'', js ''torch'')]"
  by code_simp

text \<open>
  Claim C2. The failure of one backend does not abort the run, and the results of the
  backends that succeeded are returned; but the failed backend gets no entry in the list of
  errors. searchEngine resolves a failure to \<open>{engine, error, results: []}\<close>, and the
  loop of multiEngineSearch tests \<open>result.value.results\<close>, which is truthy for the empty
  array: the branch that reads \<open>result.value?.error\<close> is never taken. Here torch times out
  and haystak answers.
\<close>

theorem C2_failed_backend_missing_from_errors:
  "engine_error (fst (searchEngine torchDown (js ''torch'') (js ''acme'') 20 {}))
     = Some (js ''Timeout'')
   \<and> map sr_url (results
         (multiEngineSearch torchDown id (js ''acme'') torchAndHaystak defaultSearchOptions))
       = [js ''http://abc.onion'', js ''http://hayonly.onion'']
   \<and> errors (multiEngineSearch torchDown id (js ''acme'') torchAndHaystak defaultSearchOptions)
       = []"
  by code_simp

end
